theory Spec2Isabelle
  imports Complex_Main "HOL-Library.AList"
begin

section \<open>Python values\<close>

text \<open>
  The bridge handles values decoded from JSON (frames from the device, the control
  document of the remote store). A finite float is represented by the rational it
  denotes; the operations used below (truth value, \<open>int()\<close>, subscripting) do not
  distinguish \<open>0.0\<close> from \<open>-0.0\<close>. Text is a list of characters. A dictionary inside a
  value keeps its insertion order; its keys are strings when it comes from JSON, and an
  integer key appears only through \<open>d[0] = v\<close>.
\<close>

datatype pyfloat = Finite rat | PosInf | NegInf | NaN

datatype pykey = KStr string | KInt int

datatype pyval =
    PNone
  | PBool bool
  | PInt int
  | PFloat pyfloat
  | PStr string
  | PList "pyval list"
  | PDict "(pykey \<times> pyval) list"

datatype pyexn =
    TypeError | ValueError | OverflowError | IndexError | KeyError
  | SerialError | RemoteError

text \<open>The truth value of a Python object, as tested by \<open>if v\<close> and \<open>1 if v else 0\<close>.\<close>

fun truthy :: "pyval \<Rightarrow> bool" where
  "truthy PNone = False"
| "truthy (PBool b) = b"
| "truthy (PInt n) = (n \<noteq> 0)"
| "truthy (PFloat f) = (f \<noteq> Finite 0)"
| "truthy (PStr s) = (s \<noteq> [])"
| "truthy (PList xs) = (xs \<noteq> [])"
| "truthy (PDict d) = (d \<noteq> [])"

text \<open>The coercion of an actuator value, \<open>1 if v else 0\<close>.\<close>

definition coerce :: "pyval \<Rightarrow> int" where
  "coerce v = (if truthy v then 1 else 0)"

text \<open>
  Python's \<open>int(v)\<close>. The conversion of text is the built-in's own parser and is taken as
  the parameter \<open>str_int\<close> (\<open>None\<close> is the built-in's \<open>ValueError\<close>). A float is truncated
  towards zero; \<open>int(nan)\<close> is a \<open>ValueError\<close>, \<open>int(inf)\<close> an \<open>OverflowError\<close>.
\<close>

fun py_int :: "(string \<Rightarrow> int option) \<Rightarrow> pyval \<Rightarrow> pyexn + int" where
  "py_int str_int PNone = Inl TypeError"
| "py_int str_int (PBool b) = Inr (if b then 1 else 0)"
| "py_int str_int (PInt n) = Inr n"
| "py_int str_int (PFloat (Finite q)) = Inr (if 0 \<le> q then \<lfloor>q\<rfloor> else \<lceil>q\<rceil>)"
| "py_int str_int (PFloat NaN) = Inl ValueError"
| "py_int str_int (PFloat PosInf) = Inl OverflowError"
| "py_int str_int (PFloat NegInf) = Inl OverflowError"
| "py_int str_int (PStr s) = (case str_int s of None \<Rightarrow> Inl ValueError | Some n \<Rightarrow> Inr n)"
| "py_int str_int (PList xs) = Inl TypeError"
| "py_int str_int (PDict d) = Inl TypeError"

text \<open>\<open>len(v)\<close>, \<open>v[i]\<close> and \<open>v[i] = x\<close> for the indices 0 and 1 the bridge uses.\<close>

fun py_len :: "pyval \<Rightarrow> pyexn + nat" where
  "py_len (PStr s) = Inr (length s)"
| "py_len (PList xs) = Inr (length xs)"
| "py_len (PDict d) = Inr (length d)"
| "py_len v = Inl TypeError"

fun getitem :: "pyval \<Rightarrow> nat \<Rightarrow> pyexn + pyval" where
  "getitem (PList xs) i = (if i < length xs then Inr (xs ! i) else Inl IndexError)"
| "getitem (PStr s) i = (if i < length s then Inr (PStr [s ! i]) else Inl IndexError)"
| "getitem (PDict d) i =
     (case map_of d (KInt (int i)) of None \<Rightarrow> Inl KeyError | Some v \<Rightarrow> Inr v)"
| "getitem v i = Inl TypeError"

fun setitem :: "pyval \<Rightarrow> nat \<Rightarrow> pyval \<Rightarrow> pyexn + pyval" where
  "setitem (PList xs) i x = (if i < length xs then Inr (PList (xs[i := x])) else Inl IndexError)"
| "setitem (PDict d) i x = Inr (PDict (AList.update (KInt (int i)) x d))"
| "setitem v i x = Inl TypeError"

section \<open>The status store\<close>

text \<open>
  \<open>current_status\<close> is a dictionary from field names to values; a decoded frame is a
  dictionary too. \<open>update_status\<close> mutates \<open>current_status\<close> in place, so when a
  subscript assignment raises, the assignments made before it remain: the model returns
  the exception (if any) together with the status reached.
\<close>

type_synonym frame = "string \<rightharpoonup> pyval"
type_synonym status = "string \<rightharpoonup> pyval"

definition initial_status :: status where
  "initial_status =
     [''ph'' \<mapsto> PInt 0, ''turbidity'' \<mapsto> PInt 0, ''tds'' \<mapsto> PInt 0,
      ''pumps'' \<mapsto> PList [PInt 0, PInt 0], ''servo'' \<mapsto> PInt 0, ''system'' \<mapsto> PInt 0]"

text \<open>\<open>if k in data: current_status[k] = data[k]\<close>\<close>

definition copy_field :: "string \<Rightarrow> frame \<Rightarrow> status \<Rightarrow> status" where
  "copy_field k data st = (case data k of None \<Rightarrow> st | Some v \<Rightarrow> st(k \<mapsto> v))"

text \<open>
  \<open>if k in data: (ensure 'pumps' exists); current_status['pumps'][i] = 1 if data[k] else 0\<close>
\<close>

definition set_pump :: "string \<Rightarrow> nat \<Rightarrow> frame \<Rightarrow> status \<Rightarrow> pyexn option \<times> status" where
  "set_pump k i data st =
     (case data k of
        None \<Rightarrow> (None, st)
      | Some v \<Rightarrow>
          (let p = (case st ''pumps'' of None \<Rightarrow> PList [PInt 0, PInt 0] | Some p \<Rightarrow> p)
           in case setitem p i (PInt (coerce v)) of
                Inl e \<Rightarrow> (Some e, st(''pumps'' \<mapsto> p))
              | Inr p' \<Rightarrow> (None, st(''pumps'' \<mapsto> p'))))"

definition update_status :: "frame \<Rightarrow> status \<Rightarrow> pyexn option \<times> status" where
  "update_status data st =
     (let st1 = copy_field ''ph'' data st;
          st2 = copy_field ''turbidity'' data st1;
          st3 = copy_field ''tds'' data st2;
          st4 = copy_field ''pumps'' data st3
      in case set_pump ''pump1'' 0 data st4 of
           (Some e, st5) \<Rightarrow> (Some e, st5)
         | (None, st5) \<Rightarrow>
             (case set_pump ''pump2'' 1 data st5 of
                (Some e, st6) \<Rightarrow> (Some e, st6)
              | (None, st6) \<Rightarrow>
                  (None, copy_field ''system'' data (copy_field ''servo'' data st6))))"

section \<open>Text operations\<close>

text \<open>
  \<open>s.find(c, start)\<close> and \<open>s.rfind(c)\<close> return \<open>-1\<close> when the character does not occur,
  and a slice clips its bounds to the text (a negative bound counts from the end).
\<close>

fun index_of :: "char \<Rightarrow> string \<Rightarrow> nat option" where
  "index_of c [] = None"
| "index_of c (x # xs) = (if x = c then Some 0 else map_option Suc (index_of c xs))"

definition py_find :: "string \<Rightarrow> char \<Rightarrow> nat \<Rightarrow> int" where
  "py_find s c start =
     (case index_of c (drop start s) of None \<Rightarrow> - 1 | Some i \<Rightarrow> int (start + i))"

definition py_rfind :: "string \<Rightarrow> char \<Rightarrow> int" where
  "py_rfind s c =
     (case index_of c (rev s) of None \<Rightarrow> - 1 | Some i \<Rightarrow> int (length s - 1 - i))"

definition slice_bound :: "string \<Rightarrow> int \<Rightarrow> nat" where
  "slice_bound s i =
     (if i < 0 then nat (max 0 (int (length s) + i)) else min (nat i) (length s))"

definition slice :: "string \<Rightarrow> int \<Rightarrow> int \<Rightarrow> string" where
  "slice s a b = take (slice_bound s b - slice_bound s a) (drop (slice_bound s a) s)"

definition slice_from :: "string \<Rightarrow> int \<Rightarrow> string" where
  "slice_from s a = drop (slice_bound s a) s"

abbreviation lbrace :: char where "lbrace \<equiv> CHR 0x7B"
abbreviation rbrace :: char where "rbrace \<equiv> CHR 0x7D"

text \<open>
  The candidate frame of a text that contains both braces:
  \<open>start_idx = s.find('{'); end_idx = s.find('}', start_idx) + 1\<close>. When every \<open>}\<close> lies
  before the first \<open>{\<close> the second search returns \<open>-1\<close> and \<open>end_idx\<close> is \<open>0\<close>.
\<close>

definition start_idx :: "string \<Rightarrow> int" where
  "start_idx s = py_find s lbrace 0"

definition end_idx :: "string \<Rightarrow> int" where
  "end_idx s = py_find s rbrace (nat (start_idx s)) + 1"

section \<open>The bridge's state and its environment\<close>

text \<open>
  The state collects the serial port (\<open>ser\<close>), the module's global \<open>current_status\<close>,
  the function attributes that persist between calls (\<open>read_and_upload_data.buffer\<close>,
  \<open>read_and_upload_data.error_count\<close>, \<open>process_control_values.previous_control\<close>; each is
  created by the first call, with the value it has in \<open>initial_world\<close>) and the two paths
  of the remote store. In \<open>previous_control\<close> the four actuator keys are always present;
  \<open>None\<close> is Python's \<open>None\<close>. The main loop is entered only with a port object, so
  \<open>not ser\<close> is false there. An absent remote document is the empty map, which is what
  \<open>if current_values\<close> tests.
\<close>

record world =
  ser_is_open :: bool
  ser_in_waiting :: string
  ser_written :: string
  current_status :: status
  buffer :: string
  error_count :: nat
  previous_control :: "string \<Rightarrow> int option"
  control_doc :: "string \<rightharpoonup> pyval"
  sensor_data :: "string \<rightharpoonup> (string \<rightharpoonup> pyval)"

definition initial_world :: world where
  "initial_world =
     \<lparr> ser_is_open = True, ser_in_waiting = [], ser_written = [],
       current_status = initial_status, buffer = [], error_count = 0,
       previous_control = (\<lambda>k. None), control_doc = Map.empty, sensor_data = Map.empty \<rparr>"

text \<open>
  What the surroundings contribute to one iteration of the main loop: the clock, the
  formatted time stamps, the text the device delivers, and whether the calls on the port
  and on the remote store raise.
\<close>

record env =
  current_time :: real
  timestamp_key :: string
  sync_stamp :: string
  ack_stamp :: string
  arriving :: string
  responses :: "string list"
  read_ok :: bool
  write_ok :: bool
  reopen_ok :: bool
  upload_ok :: bool
  sync_ok :: bool
  fetch_ok :: bool
  ack_ok :: bool

text \<open>An environment in which the device is silent and no call raises, for examples.\<close>

definition quiet_env :: env where
  "quiet_env =
     \<lparr> current_time = 0, timestamp_key = ''20250101000000'',
       sync_stamp = ''2025-01-01 00:00:00'', ack_stamp = ''2025-01-01 00:00:00'',
       arriving = [], responses = [], read_ok = True, write_ok = True, reopen_ok = True,
       upload_ok = True, sync_ok = True, fetch_ok = True, ack_ok = True \<rparr>"

section \<open>The command channel\<close>

definition actuator_keys :: "string list" where
  "actuator_keys = [''pump1'', ''pump2'', ''servo'', ''system'']"

text \<open>A command is a dictionary in insertion order.\<close>

fun format_command :: "(string \<times> pyval) list \<Rightarrow> (string \<times> int) list" where
  "format_command [] = []"
| "format_command ((key, v) # rest) =
     (if key \<in> set actuator_keys then (key, coerce v) # format_command rest
      else format_command rest)"

text \<open>\<open>json.dumps\<close> of a formatted command, whose values are 0 or 1.\<close>

definition dumps_item :: "string \<times> int \<Rightarrow> string" where
  "dumps_item kv =
     [CHR 0x22] @ fst kv @ [CHR 0x22] @ '': '' @ (if snd kv = 1 then ''1'' else ''0'')"

fun join_items :: "string list \<Rightarrow> string" where
  "join_items [] = []"
| "join_items [x] = x"
| "join_items (x # y # ys) = x @ '', '' @ join_items (y # ys)"

definition json_dumps :: "(string \<times> int) list \<Rightarrow> string" where
  "json_dumps fc = [lbrace] @ join_items (map dumps_item fc) @ [rbrace]"

text \<open>
  The wait for a response polls the port until two seconds have passed; \<open>polls\<close> lists
  what the device has delivered at each poll. A chunk that holds both braces is cut at
  the candidate frame and decoded by \<open>json.loads\<close> (the parameter \<open>loads\<close>; \<open>None\<close> is
  \<open>JSONDecodeError\<close>). A decoded frame is merged into the status and ends the wait, unless
  the merge raises: that exception is caught with the read errors and the polling goes on.
\<close>

fun await_response :: "(string \<Rightarrow> frame option) \<Rightarrow> bool \<Rightarrow> string list \<Rightarrow> world \<Rightarrow> world" where
  "await_response loads rd_ok [] w = w"
| "await_response loads rd_ok (chunk # polls) w =
     (let w1 = w\<lparr>ser_in_waiting := ser_in_waiting w @ chunk\<rparr> in
      if ser_in_waiting w1 = [] then await_response loads rd_ok polls w1
      else if \<not> rd_ok then await_response loads rd_ok polls w1
      else
        (let raw_data = ser_in_waiting w1;
             w2 = w1\<lparr>ser_in_waiting := []\<rparr>
         in if lbrace \<in> set raw_data \<and> rbrace \<in> set raw_data then
              (case loads (slice raw_data (start_idx raw_data) (end_idx raw_data)) of
                 None \<Rightarrow> await_response loads rd_ok polls w2
               | Some response_data \<Rightarrow>
                   (case update_status response_data (current_status w2) of
                      (None, st) \<Rightarrow> w2\<lparr>current_status := st\<rparr>
                    | (Some e, st) \<Rightarrow>
                        await_response loads rd_ok polls (w2\<lparr>current_status := st\<rparr>)))
            else await_response loads rd_ok polls w2))"

definition send_command_to_arduino ::
  "(string \<Rightarrow> frame option) \<Rightarrow> env \<Rightarrow> (string \<times> pyval) list \<Rightarrow> world \<Rightarrow> bool \<times> world" where
  "send_command_to_arduino loads e command w =
     (if \<not> ser_is_open w then (False, w)
      else
        (let formatted_command = format_command command in
         if formatted_command = [] then (False, w)
         else if ser_in_waiting w \<noteq> [] \<and> \<not> read_ok e then (False, w)
         else
           (let w1 = w\<lparr>ser_in_waiting := []\<rparr> in
            if \<not> write_ok e then (False, w1)
            else
              (let command_json = json_dumps formatted_command @ [CHR 0x0A];
                   w2 = w1\<lparr>ser_written := ser_written w1 @ command_json\<rparr>
               in (True, await_response loads (read_ok e) (responses e) w2)))))"

section \<open>The reconciler\<close>

text \<open>
  The coercion of a control value: \<open>0\<close> for \<open>None\<close>, otherwise \<open>1 if int(v) else 0\<close>,
  and the exception of \<open>int\<close> when it raises.
\<close>

definition coerce_control :: "(string \<Rightarrow> int option) \<Rightarrow> pyval \<Rightarrow> pyexn + int" where
  "coerce_control str_int v =
     (if v = PNone then Inr 0
      else case py_int str_int v of
             Inl e \<Rightarrow> Inl e
           | Inr n \<Rightarrow> Inr (if n \<noteq> 0 then 1 else 0))"

text \<open>
  The loop over the four actuator keys. A key enters the command when the cache holds
  \<open>None\<close> for it or a value other than the coerced one, and the cache is updated at once.
  \<open>ValueError\<close> and \<open>TypeError\<close> are caught (the cache entry becomes 0 if it was \<open>None\<close>);
  any other exception leaves the function, with the cache as changed so far.
\<close>

fun delta_loop ::
  "(string \<Rightarrow> int option) \<Rightarrow> (string \<rightharpoonup> pyval) \<Rightarrow> string list \<Rightarrow>
   (string \<Rightarrow> int option) \<Rightarrow> (string \<times> int) list \<Rightarrow>
   pyexn option \<times> (string \<Rightarrow> int option) \<times> (string \<times> int) list" where
  "delta_loop str_int current_values [] prev command = (None, prev, command)"
| "delta_loop str_int current_values (key # keys) prev command =
     (case current_values key of
        None \<Rightarrow> delta_loop str_int current_values keys prev command
      | Some v \<Rightarrow>
          (case coerce_control str_int v of
             Inr val \<Rightarrow>
               (if prev key = None \<or> Some val \<noteq> prev key
                then delta_loop str_int current_values keys
                       (prev(key := Some val)) (command @ [(key, val)])
                else delta_loop str_int current_values keys prev command)
           | Inl e \<Rightarrow>
               (if e = ValueError \<or> e = TypeError
                then delta_loop str_int current_values keys
                       (if prev key = None then prev(key := Some 0) else prev) command
                else (Some e, prev, command))))"

text \<open>
  The status line printed after the send reads the pump slot of each pump key in the
  command: \<open>current_status['pumps'][i] if 'pumps' in current_status and
  len(current_status['pumps']) > i else "unknown"\<close>. \<open>len\<close> and the subscript may raise;
  \<open>current_status.get\<close> for servo and system does not.
\<close>

definition read_slot :: "status \<Rightarrow> nat \<Rightarrow> pyexn option" where
  "read_slot st i =
     (case st ''pumps'' of
        None \<Rightarrow> None
      | Some p \<Rightarrow>
          (case py_len p of
             Inl e \<Rightarrow> Some e
           | Inr n \<Rightarrow>
               (if i < n
                then (case getitem p i of Inl e \<Rightarrow> Some e | Inr x \<Rightarrow> None)
                else None)))"

fun status_after_command :: "status \<Rightarrow> (string \<times> int) list \<Rightarrow> pyexn option" where
  "status_after_command st [] = None"
| "status_after_command st ((key, val) # rest) =
     (case (if key = ''pump1'' then read_slot st 0
            else if key = ''pump2'' then read_slot st 1
            else None) of
        Some e \<Rightarrow> Some e
      | None \<Rightarrow> status_after_command st rest)"

text \<open>\<open>updates = {'last_updated': now}\<close> followed by every item of the command.\<close>

definition ack_updates :: "string \<Rightarrow> (string \<times> int) list \<Rightarrow> (string \<rightharpoonup> pyval)" where
  "ack_updates stamp command =
     [''last_updated'' \<mapsto> PStr stamp] ++ map_of (map (\<lambda>(k, n). (k, PInt n)) (rev command))"

text \<open>
  \<open>process_control_values\<close>. The flag \<open>changed\<close> is set exactly when a key enters the
  command, so it is the test that the command is not empty. The result of the send is
  printed and not otherwise used.
\<close>

definition process_control_values ::
  "(string \<Rightarrow> int option) \<Rightarrow> (string \<Rightarrow> frame option) \<Rightarrow> env \<Rightarrow>
   (string \<rightharpoonup> pyval) \<Rightarrow> world \<Rightarrow> pyexn option \<times> world" where
  "process_control_values str_int loads e current_values w =
     (case delta_loop str_int current_values actuator_keys (previous_control w) [] of
        (Some ex, prev, command) \<Rightarrow> (Some ex, w\<lparr>previous_control := prev\<rparr>)
      | (None, prev, command) \<Rightarrow>
          (let w1 = w\<lparr>previous_control := prev\<rparr> in
           if command = [] then (None, w1)
           else
             (let (result, w2) =
                    send_command_to_arduino loads e (map (\<lambda>(k, n). (k, PInt n)) command) w1
              in case status_after_command (current_status w2) command of
                   Some ex \<Rightarrow> (Some ex, w2)
                 | None \<Rightarrow>
                     (if ack_ok e
                      then (None, w2\<lparr>control_doc :=
                                        control_doc w2 ++ ack_updates (ack_stamp e) command\<rparr>)
                      else (Some RemoteError, w2)))))"

section \<open>The frame decoder\<close>

text \<open>
  One pass of the \<open>while\<close> loop of \<open>read_and_upload_data\<close>; the flag returned is false
  at \<open>break\<close>. An exception of \<open>update_status\<close> is caught and printed, after the error
  count has been reset.
\<close>

definition decode_step :: "(string \<Rightarrow> frame option) \<Rightarrow> world \<Rightarrow> bool \<times> world" where
  "decode_step loads w =
     (let json_str = slice (buffer w) (start_idx (buffer w)) (end_idx (buffer w));
          w1 = w\<lparr>buffer := slice_from (buffer w) (end_idx (buffer w))\<rparr>
      in if length json_str < 5 \<or> 500 < length json_str then (True, w1)
         else
           (case loads json_str of
              None \<Rightarrow>
                (let w2 = w1\<lparr>error_count := error_count w1 + 1\<rparr> in
                 if error_count w2 mod 1000 = 0 \<and> 10000 < error_count w2
                 then (False, w2\<lparr>buffer := []\<rparr>)
                 else (True, w2))
            | Some data \<Rightarrow>
                (True, w1\<lparr>error_count := 0,
                           current_status := snd (update_status data (current_status w1))\<rparr>)))"

text \<open>The loop may run forever: \<open>None\<close> is the call that does not return.\<close>

partial_function (option) decode_loop :: "(string \<Rightarrow> frame option) \<Rightarrow> world \<Rightarrow> world option" where
  "decode_loop loads w =
     (if lbrace \<in> set (buffer w) \<and> rbrace \<in> set (buffer w)
      then (let r = decode_step loads w
            in if fst r then decode_loop loads (snd r) else Some (snd r))
      else Some w)"

text \<open>The trimming of a long buffer after the loop.\<close>

definition trim_buffer :: "world \<Rightarrow> world" where
  "trim_buffer w =
     (if 500 < length (buffer w)
      then (if lbrace \<notin> set (buffer w) \<or> rbrace \<notin> set (buffer w)
            then w\<lparr>buffer := []\<rparr>
            else w\<lparr>buffer := slice_from (buffer w) (py_rfind (buffer w) lbrace)\<rparr>)
      else w)"

text \<open>
  \<open>read_and_upload_data\<close> catches every exception of its body and counts it in
  \<open>error_count\<close>.
\<close>

definition read_and_upload_data ::
  "(string \<Rightarrow> frame option) \<Rightarrow> env \<Rightarrow> world \<Rightarrow> world option" where
  "read_and_upload_data loads e w =
     (if \<not> ser_is_open w then Some (w\<lparr>error_count := error_count w + 1\<rparr>)
      else if ser_in_waiting w = [] then Some w
      else if \<not> read_ok e then Some (w\<lparr>error_count := error_count w + 1\<rparr>)
      else
        (let w1 = w\<lparr>buffer := buffer w @ ser_in_waiting w, ser_in_waiting := []\<rparr> in
         if lbrace \<in> set (buffer w1) \<and> rbrace \<notin> set (buffer w1) \<and> 100 < length (buffer w1)
         then
           (let b = slice_from (buffer w1) (py_rfind (buffer w1) lbrace)
            in Some (w1\<lparr>buffer := (if 100 < length b then [] else b)\<rparr>))
         else map_option trim_buffer (decode_loop loads w1)))"

section \<open>The main loop\<close>

record main_vars =
  serial_errors :: nat
  last_reset_time :: real
  last_firebase_update :: real
  last_sensor_upload :: real
  last_control_sync :: real

text \<open>
  The variables of the main loop with \<open>n\<close> counted errors, the last reset at \<open>t0\<close> and the
  other timers at \<open>t\<close>, for examples.
\<close>

definition vars_at :: "nat \<Rightarrow> real \<Rightarrow> real \<Rightarrow> main_vars" where
  "vars_at n t0 t =
     \<lparr> serial_errors = n, last_reset_time = t0, last_firebase_update = t,
       last_sensor_upload = t, last_control_sync = t \<rparr>"

text \<open>
  \<open>reset_serial_port\<close> closes and reopens the port; when either call raises the port
  is left closed. Input pending on the old connection is gone.
\<close>

definition reset_serial_port :: "env \<Rightarrow> world \<Rightarrow> bool \<times> world" where
  "reset_serial_port e w =
     (if ser_is_open w
      then (if reopen_ok e
            then (True, w\<lparr>ser_is_open := True, ser_in_waiting := []\<rparr>)
            else (False, w\<lparr>ser_is_open := False, ser_in_waiting := []\<rparr>))
      else (False, w))"

text \<open>\<open>current_status[k]\<close> and \<open>current_status['pumps'][i]\<close>\<close>

definition status_item :: "status \<Rightarrow> string \<Rightarrow> pyexn + pyval" where
  "status_item st k = (case st k of None \<Rightarrow> Inl KeyError | Some v \<Rightarrow> Inr v)"

definition pump_slot :: "status \<Rightarrow> nat \<Rightarrow> pyexn + pyval" where
  "pump_slot st i = (case status_item st ''pumps'' of Inl e \<Rightarrow> Inl e | Inr p \<Rightarrow> getitem p i)"

text \<open>
  The line that prints the states reads both pump slots, servo and system; the
  dictionary of the periodic mirror is built from the same four items.
\<close>

definition show_states :: "status \<Rightarrow> pyexn option" where
  "show_states st =
     (case pump_slot st 0 of Inl e \<Rightarrow> Some e | Inr p1 \<Rightarrow>
     (case pump_slot st 1 of Inl e \<Rightarrow> Some e | Inr p2 \<Rightarrow>
     (case status_item st ''servo'' of Inl e \<Rightarrow> Some e | Inr sv \<Rightarrow>
     (case status_item st ''system'' of Inl e \<Rightarrow> Some e | Inr sy \<Rightarrow> None))))"

definition control_updates :: "status \<Rightarrow> string \<Rightarrow> pyexn + (string \<rightharpoonup> pyval)" where
  "control_updates st stamp =
     (case pump_slot st 0 of Inl e \<Rightarrow> Inl e | Inr p1 \<Rightarrow>
     (case pump_slot st 1 of Inl e \<Rightarrow> Inl e | Inr p2 \<Rightarrow>
     (case status_item st ''servo'' of Inl e \<Rightarrow> Inl e | Inr sv \<Rightarrow>
     (case status_item st ''system'' of Inl e \<Rightarrow> Inl e | Inr sy \<Rightarrow>
        Inr [''pump1'' \<mapsto> p1, ''pump2'' \<mapsto> p2, ''servo'' \<mapsto> sv, ''system'' \<mapsto> sy,
             ''last_updated'' \<mapsto> PStr stamp]))))"

definition status_get :: "status \<Rightarrow> string \<Rightarrow> pyval" where
  "status_get st k = (case st k of None \<Rightarrow> PInt 0 | Some v \<Rightarrow> v)"

text \<open>
  The upload of the sensor record with the mirror of the actuator state (the body of
  \<open>if current_time - last_sensor_upload >= 1.0\<close>). An exception of the upload or of the
  states line leaves the block; the mirror catches its own.
\<close>

definition upload_and_sync :: "env \<Rightarrow> main_vars \<Rightarrow> world \<Rightarrow> pyexn option \<times> main_vars \<times> world" where
  "upload_and_sync e v w =
     (if 1 \<le> current_time e - last_sensor_upload v then
        (if \<not> upload_ok e then (Some RemoteError, v, w)
         else
           (let st = current_status w;
                sensor_record = [''ph'' \<mapsto> status_get st ''ph'', ''tds'' \<mapsto> status_get st ''tds'',
                                 ''turbidity'' \<mapsto> status_get st ''turbidity''];
                w1 = w\<lparr>sensor_data := (sensor_data w)(timestamp_key e \<mapsto> sensor_record)\<rparr>
            in case show_states st of
                 Some ex \<Rightarrow> (Some ex, v, w1)
               | None \<Rightarrow>
                   (let v1 = v\<lparr>last_sensor_upload := current_time e\<rparr> in
                    if 5 \<le> current_time e - last_control_sync v1 then
                      (case control_updates st (sync_stamp e) of
                         Inl ex \<Rightarrow> (None, v1, w1)
                       | Inr u \<Rightarrow>
                           (if sync_ok e
                            then (None, v1\<lparr>last_control_sync := current_time e\<rparr>,
                                  w1\<lparr>control_doc := control_doc w1 ++ u\<rparr>)
                            else (None, v1, w1)))
                    else (None, v1, w1))))
      else (None, v, w))"

text \<open>The check of the control document (every two seconds).\<close>

definition control_check ::
  "(string \<Rightarrow> int option) \<Rightarrow> (string \<Rightarrow> frame option) \<Rightarrow> env \<Rightarrow> main_vars \<Rightarrow> world \<Rightarrow>
   main_vars \<times> world" where
  "control_check str_int loads e v w =
     (if 2 \<le> current_time e - last_firebase_update v then
        (if \<not> fetch_ok e then (v, w)
         else if control_doc w = Map.empty then (v\<lparr>last_firebase_update := current_time e\<rparr>, w)
         else
           (case process_control_values str_int loads e (control_doc w) w of
              (Some ex, w1) \<Rightarrow> (v, w1)
            | (None, w1) \<Rightarrow> (v\<lparr>last_firebase_update := current_time e\<rparr>, w1)))
      else (v, w))"

text \<open>
  The guard of the reset, and the reset with its bookkeeping. \<open>reset_due\<close> says that
  \<open>reset_serial_port\<close> is called in this iteration.
\<close>

definition reset_due :: "env \<Rightarrow> main_vars \<Rightarrow> bool" where
  "reset_due e v = (100 < serial_errors v \<and> 60 < current_time e - last_reset_time v)"

definition reset_check :: "env \<Rightarrow> main_vars \<Rightarrow> world \<Rightarrow> main_vars \<times> world" where
  "reset_check e v w =
     (if reset_due e v then
        (case reset_serial_port e w of
           (True, w1) \<Rightarrow> (v\<lparr>serial_errors := 0, last_reset_time := current_time e\<rparr>, w1)
         | (False, w1) \<Rightarrow> (v, w1))
      else (v, w))"

text \<open>
  One iteration of the main loop. The result is \<open>None\<close> when \<open>read_and_upload_data\<close> does
  not return; otherwise it tells whether the reset was attempted.
\<close>

definition main_iteration ::
  "(string \<Rightarrow> int option) \<Rightarrow> (string \<Rightarrow> frame option) \<Rightarrow> env \<Rightarrow> main_vars \<times> world \<Rightarrow>
   (bool \<times> main_vars \<times> world) option" where
  "main_iteration str_int loads e s =
     (let (v1, w1) = reset_check e (fst s) (snd s);
          w2 = w1\<lparr>ser_in_waiting := ser_in_waiting w1 @ arriving e\<rparr>
      in case read_and_upload_data loads e w2 of
           None \<Rightarrow> None
         | Some w3 \<Rightarrow>
             (let (ex, v2, w4) = upload_and_sync e v1 w3;
                  v3 = (if ex = None then v2 else v2\<lparr>serial_errors := serial_errors v2 + 1\<rparr>)
              in Some (reset_due e (fst s), control_check str_int loads e v3 w4)))"

fun main_loop ::
  "(string \<Rightarrow> int option) \<Rightarrow> (string \<Rightarrow> frame option) \<Rightarrow> env list \<Rightarrow> main_vars \<times> world \<Rightarrow>
   (bool list \<times> main_vars \<times> world) option" where
  "main_loop str_int loads [] s = Some ([], s)"
| "main_loop str_int loads (e # es) s =
     (case main_iteration str_int loads e s of
        None \<Rightarrow> None
      | Some (fired, s1) \<Rightarrow>
          (case main_loop str_int loads es s1 of
             None \<Rightarrow> None
           | Some (fires, s2) \<Rightarrow> Some (fired # fires, s2)))"

section \<open>Properties of the status merge\<close>

lemma copy_field_same: "data k = None \<Longrightarrow> copy_field j data st k = st k"
  by (cases "k = j") (simp_all add: copy_field_def split: option.splits)

lemma copy_field_other: "k \<noteq> j \<Longrightarrow> copy_field j data st k = st k"
  by (simp add: copy_field_def split: option.splits)

lemma copy_field_present: "data j = Some v \<Longrightarrow> copy_field j data st = st(j \<mapsto> v)"
  by (simp add: copy_field_def)

lemma set_pump_other: "k \<noteq> ''pumps'' \<Longrightarrow> snd (set_pump j i data st) k = st k"
  by (simp add: set_pump_def Let_def split: option.splits sum.splits)

lemma set_pump_absent: "data j = None \<Longrightarrow> set_pump j i data st = (None, st)"
  by (simp add: set_pump_def)

lemma set_pump_list:
  "data j = Some v \<Longrightarrow> st ''pumps'' = Some (PList xs) \<Longrightarrow> i < length xs \<Longrightarrow>
   set_pump j i data st = (None, st(''pumps'' \<mapsto> PList (xs[i := PInt (coerce v)])))"
  by (simp add: set_pump_def)

text \<open>The status reached by \<open>update_status\<close>, with the case analysis on the two pump keys.\<close>

lemma update_status_snd:
  "snd (update_status data st) =
     (let st4 = copy_field ''pumps'' data (copy_field ''tds'' data
                  (copy_field ''turbidity'' data (copy_field ''ph'' data st)));
          st5 = snd (set_pump ''pump1'' 0 data st4)
      in if fst (set_pump ''pump1'' 0 data st4) \<noteq> None then st5
         else let st6 = snd (set_pump ''pump2'' 1 data st5)
              in if fst (set_pump ''pump2'' 1 data st5) \<noteq> None then st6
                 else copy_field ''system'' data (copy_field ''servo'' data st6))"
  by (simp add: update_status_def Let_def split: prod.splits option.splits)

lemma update_status_unchanged:
  assumes "k \<notin> {''ph'', ''turbidity'', ''tds'', ''pumps'', ''servo'', ''system''} \<or> data k = None"
    and "k = ''pumps'' \<longrightarrow> data ''pump1'' = None \<and> data ''pump2'' = None"
  shows "snd (update_status data st) k = st k"
proof -
  have c: "copy_field j data s k = s k"
    if "j \<in> {''ph'', ''turbidity'', ''tds'', ''pumps'', ''servo'', ''system''}" for j s
  proof (cases "data k = None")
    case True
    then show ?thesis by (rule copy_field_same)
  next
    case False
    with assms(1) that have "k \<noteq> j" by metis
    then show ?thesis by (rule copy_field_other)
  qed
  have p: "snd (set_pump j i data s) k = s k" if "j = ''pump1'' \<or> j = ''pump2''" for j i s
  proof (cases "k = ''pumps''")
    case True
    with assms(2) that have "data j = None" by metis
    then show ?thesis by (simp add: set_pump_absent)
  next
    case False
    then show ?thesis by (rule set_pump_other)
  qed
  show ?thesis
    by (simp add: update_status_snd Let_def p c)
qed

lemma update_status_ignores:
  assumes "j \<notin> {''ph'', ''turbidity'', ''tds'', ''pumps'', ''pump1'', ''pump2'', ''servo'', ''system''}"
  shows "update_status (data(j \<mapsto> x)) st = update_status data st"
proof -
  have c: "copy_field k (data(j \<mapsto> x)) = copy_field k data" if "j \<noteq> k" for k
    using that by (simp add: copy_field_def fun_eq_iff)
  have p: "set_pump k i (data(j \<mapsto> x)) = set_pump k i data" if "j \<noteq> k" for k i
    using that by (simp add: set_pump_def fun_eq_iff)
  from assms have n: "j \<noteq> ''ph''" "j \<noteq> ''turbidity''" "j \<noteq> ''tds''" "j \<noteq> ''pumps''"
    "j \<noteq> ''pump1''" "j \<noteq> ''pump2''" "j \<noteq> ''servo''" "j \<noteq> ''system''"
    by simp_all
  show ?thesis
    unfolding update_status_def c [OF n(1)] c [OF n(2)] c [OF n(3)] c [OF n(4)]
      p [OF n(5)] p [OF n(6)] c [OF n(7)] c [OF n(8)] ..
qed

lemma update_status_ph:
  "data ''ph'' = Some v \<Longrightarrow> snd (update_status data st) ''ph'' = Some v"
  by (simp add: update_status_snd Let_def set_pump_other copy_field_other copy_field_present)

text \<open>
  C5. A frame that holds only \<open>ph\<close> sets \<open>ph\<close> to the frame's value and changes no other
  field of the status. For any frame: \<open>ph\<close> takes the frame's value when the frame has
  one; a field of the status changes only if the frame holds its key (for \<open>pumps\<close>: that
  key, \<open>pump1\<close> or \<open>pump2\<close>); and a key that \<open>update_status\<close> does not know has no effect.
\<close>

theorem update_status_partial:
  "update_status [''ph'' \<mapsto> v] st = (None, st(''ph'' \<mapsto> v))
   \<and> (data ''ph'' = Some v \<longrightarrow> snd (update_status data st) ''ph'' = Some v)
   \<and> (snd (update_status data st) k \<noteq> st k \<longrightarrow>
        (k \<in> {''ph'', ''turbidity'', ''tds'', ''pumps'', ''servo'', ''system''} \<and> data k \<noteq> None)
        \<or> (k = ''pumps'' \<and> (data ''pump1'' \<noteq> None \<or> data ''pump2'' \<noteq> None)))
   \<and> (j \<notin> {''ph'', ''turbidity'', ''tds'', ''pumps'', ''pump1'', ''pump2'', ''servo'', ''system''}
        \<longrightarrow> update_status (data(j \<mapsto> x)) st = update_status data st)"
proof (intro conjI impI)
  show "update_status [''ph'' \<mapsto> v] st = (None, st(''ph'' \<mapsto> v))"
    by (simp add: update_status_def copy_field_def set_pump_def)
next
  assume "data ''ph'' = Some v"
  then show "snd (update_status data st) ''ph'' = Some v" by (rule update_status_ph)
next
  assume neq: "snd (update_status data st) k \<noteq> st k"
  show "(k \<in> {''ph'', ''turbidity'', ''tds'', ''pumps'', ''servo'', ''system''} \<and> data k \<noteq> None)
        \<or> (k = ''pumps'' \<and> (data ''pump1'' \<noteq> None \<or> data ''pump2'' \<noteq> None))"
  proof (rule ccontr)
    assume "\<not> ?thesis"
    then have "k \<notin> {''ph'', ''turbidity'', ''tds'', ''pumps'', ''servo'', ''system''} \<or> data k = None"
      and "k = ''pumps'' \<longrightarrow> data ''pump1'' = None \<and> data ''pump2'' = None"
      by argo+
    then have "snd (update_status data st) k = st k"
      by (rule update_status_unchanged)
    with neq show False by contradiction
  qed
next
  assume "j \<notin> {''ph'', ''turbidity'', ''tds'', ''pumps'', ''pump1'', ''pump2'', ''servo'', ''system''}"
  then show "update_status (data(j \<mapsto> x)) st = update_status data st"
    by (rule update_status_ignores)
qed

theorem update_status_partial_witness:
  "update_status [''ph'' \<mapsto> PFloat (Finite (71 / 10))] initial_status
     = (None, initial_status(''ph'' \<mapsto> PFloat (Finite (71 / 10))))
   \<and> snd (update_status [''ph'' \<mapsto> PFloat (Finite (71 / 10)), ''foo'' \<mapsto> PInt 1] initial_status) ''ph''
       = Some (PFloat (Finite (71 / 10)))
   \<and> snd (update_status [''ph'' \<mapsto> PFloat (Finite (71 / 10)), ''foo'' \<mapsto> PInt 1] initial_status) ''tds''
       = Some (PInt 0)
   \<and> update_status [''ph'' \<mapsto> PFloat (Finite (71 / 10)), ''foo'' \<mapsto> PInt 1] initial_status
       = update_status [''ph'' \<mapsto> PFloat (Finite (71 / 10))] initial_status"
  using update_status_partial [of "PFloat (Finite (71 / 10))" initial_status
      "[''ph'' \<mapsto> PFloat (Finite (71 / 10)), ''foo'' \<mapsto> PInt 1]" "''tds''" "''foo''" "PInt 1"]
    update_status_partial [of "PFloat (Finite (71 / 10))" initial_status
      "[''ph'' \<mapsto> PFloat (Finite (71 / 10))]" "''tds''" "''foo''" "PInt 1"]
  by (simp add: initial_status_def)

text \<open>
  C9. When a frame holds a \<open>pumps\<close> array (of at least two slots) together with \<open>pump1\<close> or
  \<open>pump2\<close>, the array is stored first and the individual values, coerced to 0 or 1, are
  then written over its slots: they win. A \<open>pumps\<close> value that comes alone is stored as
  it is.
\<close>

theorem update_status_pump_precedence:
  "(data ''pumps'' = Some (PList xs) \<and> 2 \<le> length xs \<longrightarrow>
      fst (update_status data st) = None
      \<and> snd (update_status data st) ''pumps'' =
          Some (PList
            (let ys = (case data ''pump1'' of None \<Rightarrow> xs | Some v1 \<Rightarrow> xs[0 := PInt (coerce v1)])
             in case data ''pump2'' of None \<Rightarrow> ys | Some v2 \<Rightarrow> ys[1 := PInt (coerce v2)])))
   \<and> (data ''pumps'' = Some (PList [a, b]) \<and> data ''pump1'' = Some v1 \<and> data ''pump2'' = Some v2 \<longrightarrow>
        snd (update_status data st) ''pumps'' = Some (PList [PInt (coerce v1), PInt (coerce v2)]))
   \<and> (data ''pumps'' = Some p \<and> data ''pump1'' = None \<and> data ''pump2'' = None \<longrightarrow>
        snd (update_status data st) ''pumps'' = Some p)"
proof (intro conjI impI)
  assume a: "data ''pumps'' = Some (PList xs) \<and> 2 \<le> length xs"
  define st4 where "st4 = copy_field ''pumps'' data (copy_field ''tds'' data
                  (copy_field ''turbidity'' data (copy_field ''ph'' data st)))"
  define ys where "ys = (case data ''pump1'' of None \<Rightarrow> xs | Some v1 \<Rightarrow> xs[0 := PInt (coerce v1)])"
  define zs where "zs = (case data ''pump2'' of None \<Rightarrow> ys | Some v2 \<Rightarrow> ys[1 := PInt (coerce v2)])"
  have l: "length ys = length xs" by (simp add: ys_def split: option.splits)
  from a have l0: "0 < length xs" and l1: "1 < length xs" by auto
  have st4: "st4 ''pumps'' = Some (PList xs)"
    using a by (simp add: st4_def copy_field_present)
  have s5: "set_pump ''pump1'' 0 data st4 = (None, st4(''pumps'' \<mapsto> PList ys))"
  proof (cases "data ''pump1''")
    case None
    then show ?thesis using st4 by (simp add: set_pump_absent ys_def fun_upd_idem)
  next
    case (Some v1)
    then show ?thesis using st4 l0 by (simp add: set_pump_list ys_def)
  qed
  have s6: "set_pump ''pump2'' 1 data (st4(''pumps'' \<mapsto> PList ys)) = (None, st4(''pumps'' \<mapsto> PList zs))"
  proof (cases "data ''pump2''")
    case None
    then show ?thesis by (simp add: set_pump_absent zs_def)
  next
    case (Some v2)
    then show ?thesis using l1 l by (simp add: set_pump_list zs_def)
  qed
  have u: "update_status data st =
             (None, copy_field ''system'' data (copy_field ''servo'' data (st4(''pumps'' \<mapsto> PList zs))))"
    unfolding update_status_def Let_def st4_def [symmetric] by (simp add: s5 s6 del: One_nat_def)
  show "fst (update_status data st) = None" by (simp add: u)
  have "snd (update_status data st) ''pumps'' = Some (PList zs)"
    by (simp add: u copy_field_other)
  then show "snd (update_status data st) ''pumps'' =
          Some (PList
            (let ys = (case data ''pump1'' of None \<Rightarrow> xs | Some v1 \<Rightarrow> xs[0 := PInt (coerce v1)])
             in case data ''pump2'' of None \<Rightarrow> ys | Some v2 \<Rightarrow> ys[1 := PInt (coerce v2)]))"
    unfolding zs_def ys_def Let_def .
next
  assume a: "data ''pumps'' = Some (PList [a, b]) \<and> data ''pump1'' = Some v1 \<and> data ''pump2'' = Some v2"
  then show "snd (update_status data st) ''pumps'' = Some (PList [PInt (coerce v1), PInt (coerce v2)])"
    by (simp add: update_status_snd Let_def copy_field_present copy_field_other set_pump_list)
next
  assume a: "data ''pumps'' = Some p \<and> data ''pump1'' = None \<and> data ''pump2'' = None"
  then show "snd (update_status data st) ''pumps'' = Some p"
    by (simp add: update_status_snd Let_def copy_field_present copy_field_other set_pump_absent)
qed

theorem update_status_pump_precedence_witness:
  "update_status [''pumps'' \<mapsto> PList [PInt 1, PInt 1], ''pump1'' \<mapsto> PInt 0, ''pump2'' \<mapsto> PFloat (Finite 2)]
      initial_status
     = (None, initial_status(''pumps'' \<mapsto> PList [PInt 0, PInt 1]))
   \<and> snd (update_status [''pumps'' \<mapsto> PList [PInt 1, PInt 7]] initial_status) ''pumps''
       = Some (PList [PInt 1, PInt 7])"
  using update_status_pump_precedence
    [of "[''pumps'' \<mapsto> PList [PInt 1, PInt 1], ''pump1'' \<mapsto> PInt 0, ''pump2'' \<mapsto> PFloat (Finite 2)]"
        "[PInt 1, PInt 1]" initial_status "PInt 1" "PInt 1" "PInt 0" "PFloat (Finite 2)"
        "PList [PInt 1, PInt 7]"]
    update_status_pump_precedence
    [of "[''pumps'' \<mapsto> PList [PInt 1, PInt 7]]"
        "[PInt 1, PInt 7]" initial_status "PInt 1" "PInt 7" "PInt 0" "PInt 0"
        "PList [PInt 1, PInt 7]"]
  by (simp add: update_status_def copy_field_def set_pump_def coerce_def initial_status_def)


section \<open>Properties of the coercions\<close>

lemma truncate_nonzero:
  fixes q :: rat
  shows "((if 0 \<le> q then \<lfloor>q\<rfloor> else \<lceil>q\<rceil>) \<noteq> 0) = (1 \<le> \<bar>q\<bar>)"
proof (cases "0 \<le> q")
  case True
  then have "(\<lfloor>q\<rfloor> = 0) = (q < 1)"
    by (simp add: floor_eq_iff)
  with True show ?thesis by auto
next
  case False
  then have "(\<lceil>q\<rceil> = 0) = (- 1 < q)"
    by (simp add: ceiling_eq_iff)
  with False show ?thesis by auto
qed

lemma coerce_control_range:
  "coerce_control str_int v = Inr c \<Longrightarrow> c = 0 \<or> c = 1"
  by (auto simp: coerce_control_def split: if_splits sum.splits)

text \<open>
  C7, as the code has it. The coercion of the command channel is 1 for a true value and
  0 otherwise, and coercing its result again gives the same result. The coercion of the
  reconciler converts with \<open>int\<close> first: it gives 0 for \<open>None\<close>, agrees with the command
  channel on booleans and integers, gives 1 for a finite float exactly when its absolute
  value is at least 1, and gives no value when \<open>int\<close> raises (a list, a dictionary, text
  that \<open>int\<close> rejects, a float that is not finite). Every value it gives is 0 or 1 and is
  left unchanged by either coercion.
\<close>

theorem coercion_laws:
  "coerce v = (if truthy v then 1 else 0)
   \<and> coerce (PInt (coerce v)) = coerce v
   \<and> coerce_control str_int PNone = Inr 0
   \<and> coerce_control str_int (PBool b) = Inr (coerce (PBool b))
   \<and> coerce_control str_int (PInt n) = Inr (coerce (PInt n))
   \<and> coerce_control str_int (PFloat (Finite q)) = Inr (if 1 \<le> \<bar>q\<bar> then 1 else 0)
   \<and> coerce_control str_int (PFloat NaN) = Inl ValueError
   \<and> coerce_control str_int (PFloat PosInf) = Inl OverflowError
   \<and> coerce_control str_int (PFloat NegInf) = Inl OverflowError
   \<and> coerce_control str_int (PList xs) = Inl TypeError
   \<and> coerce_control str_int (PDict d) = Inl TypeError
   \<and> coerce_control str_int (PStr s) =
         (case str_int s of None \<Rightarrow> Inl ValueError | Some m \<Rightarrow> Inr (coerce (PInt m)))
   \<and> (coerce_control str_int v = Inr c \<longrightarrow>
         (c = 0 \<or> c = 1) \<and> coerce_control str_int (PInt c) = Inr c \<and> coerce (PInt c) = c)"
proof -
  have f: "coerce_control str_int (PFloat (Finite q)) = Inr (if 1 \<le> \<bar>q\<bar> then 1 else 0)"
    using truncate_nonzero [of q] by (simp add: coerce_control_def)
  have s: "coerce_control str_int (PStr s) =
         (case str_int s of None \<Rightarrow> Inl ValueError | Some m \<Rightarrow> Inr (coerce (PInt m)))"
    by (simp add: coerce_control_def coerce_def split: option.splits)
  have r: "(c = 0 \<or> c = 1) \<and> coerce_control str_int (PInt c) = Inr c \<and> coerce (PInt c) = c"
    if "coerce_control str_int v = Inr c"
    using coerce_control_range [OF that] by (auto simp: coerce_control_def coerce_def)
  show ?thesis
    using f s r by (simp add: coerce_control_def coerce_def)
qed

theorem coercion_laws_witness:
  "coerce_control (\<lambda>s. None) (PFloat (Finite 3)) = Inr 1
   \<and> coerce_control (\<lambda>s. None) (PInt 1) = Inr 1 \<and> coerce (PInt 1) = 1"
  using coercion_laws [of "PFloat (Finite 3)" "\<lambda>s. None" True 0 3 "[]" "[]" "[]" 1]
  by simp

text \<open>
  The claim as the specification states it fails for the reconciler: \<open>0.5\<close> is a true,
  nonzero value, and the reconciler coerces it to 0, while the command channel coerces it
  to 1.
\<close>

theorem coercion_counterexample:
  "truthy (PFloat (Finite (1 / 2)))
   \<and> coerce (PFloat (Finite (1 / 2))) = 1
   \<and> coerce_control (\<lambda>s. None) (PFloat (Finite (1 / 2))) = Inr 0"
  by (simp add: coerce_control_def coerce_def floor_eq_iff)


section \<open>Properties of the command channel\<close>

lemma format_command_empty:
  "(format_command command = []) = (\<forall>kv \<in> set command. fst kv \<notin> set actuator_keys)"
  by (induction command rule: format_command.induct) auto

text \<open>
  C4. A command that is empty or holds no actuator key is rejected: the send returns
  \<open>False\<close> and leaves the port, the status and the rest of the state as they were.
\<close>

theorem send_rejects_unrecognized:
  "(\<forall>kv \<in> set command. fst kv \<notin> set actuator_keys) \<Longrightarrow>
   send_command_to_arduino loads e command w = (False, w)"
  by (simp add: send_command_to_arduino_def format_command_empty)

theorem send_rejects_unrecognized_witness:
  "send_command_to_arduino (\<lambda>s. None) quiet_env [(''foo'', PInt 1)] initial_world
     = (False, initial_world)
   \<and> send_command_to_arduino (\<lambda>s. None) quiet_env [] initial_world = (False, initial_world)"
  using send_rejects_unrecognized [of "[(''foo'', PInt 1)]" "\<lambda>s. None" quiet_env initial_world]
    send_rejects_unrecognized [of "[]" "\<lambda>s. None" quiet_env initial_world]
  by (simp add: actuator_keys_def)


section \<open>Properties of the reconciler\<close>

lemma delta_loop_only:
  "(k, n) \<in> set (snd (snd (delta_loop str_int cv keys prev cmd))) \<Longrightarrow>
   (k, n) \<in> set cmd \<or>
   (k \<in> set keys \<and> (\<exists>v. cv k = Some v \<and> coerce_control str_int v = Inr n) \<and> prev k \<noteq> Some n)"
proof (induction keys arbitrary: prev cmd)
  case Nil
  then show ?case by simp
next
  case (Cons key keys)
  show ?case
  proof (cases "cv key")
    case None
    with Cons show ?thesis by auto
  next
    case (Some v)
    show ?thesis
    proof (cases "coerce_control str_int v")
      case (Inl ex)
      with Some Cons.prems Cons.IH [where prev = "if prev key = None then prev(key := Some 0) else prev" and cmd = cmd]
      show ?thesis by (auto split: if_splits)
    next
      case (Inr val)
      show ?thesis
      proof (cases "prev key = None \<or> Some val \<noteq> prev key")
        case True
        with Some Inr Cons.prems
        have "(k, n) \<in> set (snd (snd (delta_loop str_int cv keys (prev(key := Some val))
                                   (cmd @ [(key, val)]))))"
          by simp
        from Cons.IH [OF this] True Some Inr show ?thesis
          by (auto split: if_splits)
      next
        case False
        with Some Inr Cons.prems Cons.IH [where prev = prev and cmd = cmd] show ?thesis by auto
      qed
    qed
  qed
qed

lemma delta_loop_keeps:
  "set cmd \<subseteq> set (snd (snd (delta_loop str_int cv keys prev cmd)))"
proof (induction keys arbitrary: prev cmd)
  case Nil
  then show ?case by simp
next
  case (Cons key keys)
  have a: "set cmd \<subseteq> set (snd (snd (delta_loop str_int cv keys p cmd)))" for p
    by (rule Cons.IH)
  have b: "set cmd \<subseteq> set (snd (snd (delta_loop str_int cv keys p (cmd @ [x]))))" for p x
    using Cons.IH [where prev = p and cmd = "cmd @ [x]"] by auto
  show ?case
    using a b by (simp split: option.splits sum.splits)
qed

lemma delta_loop_complete:
  "fst (delta_loop str_int cv keys prev cmd) = None \<Longrightarrow> k \<in> set keys \<Longrightarrow>
   cv k = Some v \<Longrightarrow> coerce_control str_int v = Inr n \<Longrightarrow> prev k \<noteq> Some n \<Longrightarrow>
   (k, n) \<in> set (snd (snd (delta_loop str_int cv keys prev cmd)))"
proof (induction keys arbitrary: prev cmd)
  case Nil
  then show ?case by simp
next
  case (Cons key keys)
  show ?case
  proof (cases "k = key")
    case True
    have "(k, n) \<in> set (cmd @ [(k, n)])" by simp
    also have "\<dots> \<subseteq> set (snd (snd (delta_loop str_int cv keys (prev(k := Some n)) (cmd @ [(k, n)]))))"
      by (rule delta_loop_keeps)
    finally show ?thesis
      using True Cons.prems by auto
  next
    case False
    with Cons.prems have k: "k \<in> set keys" by simp
    show ?thesis
    proof (cases "cv key")
      case None
      with Cons.prems k Cons.IH [where prev = prev and cmd = cmd] show ?thesis by simp
    next
      case (Some u)
      show ?thesis
      proof (cases "coerce_control str_int u")
        case (Inl ex)
        with Some False Cons.prems k
          Cons.IH [where prev = "if prev key = None then prev(key := Some 0) else prev" and cmd = cmd]
        show ?thesis by (auto split: if_splits)
      next
        case (Inr val)
        show ?thesis
        proof (cases "prev key = None \<or> Some val \<noteq> prev key")
          case True
          with Some Inr have eq: "delta_loop str_int cv (key # keys) prev cmd =
              delta_loop str_int cv keys (prev(key := Some val)) (cmd @ [(key, val)])"
            by simp
          from False Cons.prems have "(prev(key := Some val)) k \<noteq> Some n" by simp
          with Cons.IH [of "prev(key := Some val)" "cmd @ [(key, val)]"] Cons.prems k
          show ?thesis unfolding eq by blast
        next
          case no: False
          with Some Inr have eq: "delta_loop str_int cv (key # keys) prev cmd =
              delta_loop str_int cv keys prev cmd"
            by auto
          from Cons.IH [of prev cmd] Cons.prems k
          show ?thesis unfolding eq by blast
        qed
      qed
    qed
  qed
qed

lemma await_response_written:
  "ser_written (await_response loads rd polls w) = ser_written w"
  by (induction loads rd polls w rule: await_response.induct)
     (auto simp: Let_def split: option.splits prod.splits)

lemma await_response_control_doc:
  "control_doc (await_response loads rd polls w) = control_doc w"
  by (induction loads rd polls w rule: await_response.induct)
     (auto simp: Let_def split: option.splits prod.splits)

lemma await_response_previous_control:
  "previous_control (await_response loads rd polls w) = previous_control w"
  by (induction loads rd polls w rule: await_response.induct)
     (auto simp: Let_def split: option.splits prod.splits)

lemma send_written:
  "ser_written (snd (send_command_to_arduino loads e command w)) =
     (if ser_is_open w \<and> format_command command \<noteq> [] \<and> (ser_in_waiting w = [] \<or> read_ok e)
         \<and> write_ok e
      then ser_written w @ json_dumps (format_command command) @ [CHR 0x0A]
      else ser_written w)"
  by (simp add: send_command_to_arduino_def Let_def await_response_written)

lemma send_control_doc:
  "control_doc (snd (send_command_to_arduino loads e command w)) = control_doc w"
  by (simp add: send_command_to_arduino_def Let_def await_response_control_doc)

lemma send_previous_control:
  "previous_control (snd (send_command_to_arduino loads e command w)) = previous_control w"
  by (simp add: send_command_to_arduino_def Let_def await_response_previous_control)

lemma send_closed:
  "\<not> ser_is_open w \<Longrightarrow> send_command_to_arduino loads e command w = (False, w)"
  by (simp add: send_command_to_arduino_def)

text \<open>The cases of \<open>process_control_values\<close>, by the outcome of the loop over the keys.\<close>

lemma process_raised:
  "delta_loop str_int cv actuator_keys (previous_control w) [] = (Some ex, prev, command) \<Longrightarrow>
   process_control_values str_int loads e cv w = (Some ex, w\<lparr>previous_control := prev\<rparr>)"
  by (simp add: process_control_values_def)

lemma process_unchanged:
  "delta_loop str_int cv actuator_keys (previous_control w) [] = (None, prev, []) \<Longrightarrow>
   process_control_values str_int loads e cv w = (None, w\<lparr>previous_control := prev\<rparr>)"
  by (simp add: process_control_values_def)

lemma process_changed:
  "delta_loop str_int cv actuator_keys (previous_control w) [] = (None, prev, command) \<Longrightarrow>
   command \<noteq> [] \<Longrightarrow>
   send_command_to_arduino loads e (map (\<lambda>(k, n). (k, PInt n)) command)
     (w\<lparr>previous_control := prev\<rparr>) = (result, w2) \<Longrightarrow>
   process_control_values str_int loads e cv w =
     (case status_after_command (current_status w2) command of
        Some ex \<Rightarrow> (Some ex, w2)
      | None \<Rightarrow>
          (if ack_ok e
           then (None, w2\<lparr>control_doc := control_doc w2 ++ ack_updates (ack_stamp e) command\<rparr>)
           else (Some RemoteError, w2)))"
  by (simp add: process_control_values_def)


lemma process_previous_control:
  "previous_control (snd (process_control_values str_int loads e cv w)) =
     fst (snd (delta_loop str_int cv actuator_keys (previous_control w) []))"
proof -
  obtain ex prev command where
    d: "delta_loop str_int cv actuator_keys (previous_control w) [] = (ex, prev, command)"
    by (metis prod_cases3)
  show ?thesis
  proof (cases ex)
    case (Some x)
    with d show ?thesis by (simp add: process_raised)
  next
    case None
    show ?thesis
    proof (cases "command = []")
      case True
      with d None show ?thesis by (simp add: process_unchanged)
    next
      case False
      obtain result w2 where
        s: "send_command_to_arduino loads e (map (\<lambda>(k, n). (k, PInt n)) command)
              (w\<lparr>previous_control := prev\<rparr>) = (result, w2)"
        by (metis surj_pair)
      have "previous_control w2 = prev"
        using send_previous_control [of loads e "map (\<lambda>(k, n). (k, PInt n)) command"
            "w\<lparr>previous_control := prev\<rparr>"] s
        by simp
      with d None False s show ?thesis
        by (simp add: process_changed split: option.splits)
    qed
  qed
qed

lemma process_written:
  assumes "delta_loop str_int cv actuator_keys (previous_control w) [] = (None, prev, command)"
    and "command \<noteq> []"
  shows "ser_written (snd (process_control_values str_int loads e cv w)) =
     ser_written (snd (send_command_to_arduino loads e (map (\<lambda>(k, n). (k, PInt n)) command)
       (w\<lparr>previous_control := prev\<rparr>)))"
proof -
  obtain result w2 where
    s: "send_command_to_arduino loads e (map (\<lambda>(k, n). (k, PInt n)) command)
          (w\<lparr>previous_control := prev\<rparr>) = (result, w2)"
    by (metis surj_pair)
  show ?thesis
    by (simp add: process_changed [OF assms s] s split: option.splits)
qed

lemma delta_pump1_on:
  assumes "prev ''pump1'' = Some 0" "prev ''pump2'' = Some 0"
    "prev ''servo'' = Some 0" "prev ''system'' = Some 0"
  shows "delta_loop str_int
           [''pump1'' \<mapsto> PInt 1, ''pump2'' \<mapsto> PInt 0, ''servo'' \<mapsto> PInt 0, ''system'' \<mapsto> PInt 0]
           actuator_keys prev [] = (None, prev(''pump1'' := Some 1), [(''pump1'', 1)])"
  using assms by (simp add: actuator_keys_def coerce_control_def)

lemma delta_first_cycle:
  "delta_loop str_int [''pump1'' \<mapsto> PInt 0] actuator_keys (\<lambda>k. None) [] =
     (None, (\<lambda>k. None)(''pump1'' := Some 0), [(''pump1'', 0)])"
  by (simp add: actuator_keys_def coerce_control_def)

lemma delta_second_cycle:
  assumes "cv ''pump1'' = Some (PInt 0)" "cv ''pump2'' = None" "cv ''servo'' = None"
    "cv ''system'' = None"
  shows "delta_loop str_int cv actuator_keys ((\<lambda>k. None)(''pump1'' := Some 0)) [] =
     (None, (\<lambda>k. None)(''pump1'' := Some 0), [])"
  using assms by (simp add: actuator_keys_def coerce_control_def)

lemma dumps_pump1:
  "json_dumps (format_command [(''pump1'', PInt n)]) =
     [lbrace, CHR 0x22] @ ''pump1'' @ [CHR 0x22] @ '': '' @ (if n = 0 then ''0'' else ''1'') @ [rbrace]"
  by (simp add: json_dumps_def dumps_item_def actuator_keys_def coerce_def)

text \<open>
  C2. With the cache at 0 for the four keys and the document \<open>{pump1: 1, pump2: 0,
  servo: 0, system: 0}\<close>, the loop over the keys yields the command \<open>{pump1: 1}\<close>, that
  command is the argument of the send, and on a usable port the bytes written are the
  line \<open>{"pump1": 1}\<close>. For any cache and document, a key is in the command only if the
  document holds it and its coerced value differs from the cached one; and when the loop
  ends without an exception every such key is in the command.
\<close>

theorem delta_only_forwarding:
  "(previous_control w ''pump1'' = Some 0 \<and> previous_control w ''pump2'' = Some 0 \<and>
    previous_control w ''servo'' = Some 0 \<and> previous_control w ''system'' = Some 0 \<longrightarrow>
      delta_loop str_int
        [''pump1'' \<mapsto> PInt 1, ''pump2'' \<mapsto> PInt 0, ''servo'' \<mapsto> PInt 0, ''system'' \<mapsto> PInt 0]
        actuator_keys (previous_control w) []
        = (None, (previous_control w)(''pump1'' := Some 1), [(''pump1'', 1)])
      \<and> process_control_values str_int loads e
          [''pump1'' \<mapsto> PInt 1, ''pump2'' \<mapsto> PInt 0, ''servo'' \<mapsto> PInt 0, ''system'' \<mapsto> PInt 0] w
        = (case send_command_to_arduino loads e [(''pump1'', PInt 1)]
                  (w\<lparr>previous_control := (previous_control w)(''pump1'' := Some 1)\<rparr>) of
             (result, w2) \<Rightarrow>
               (case status_after_command (current_status w2) [(''pump1'', 1)] of
                  Some ex \<Rightarrow> (Some ex, w2)
                | None \<Rightarrow>
                    (if ack_ok e
                     then (None, w2\<lparr>control_doc :=
                             control_doc w2 ++ ack_updates (ack_stamp e) [(''pump1'', 1)]\<rparr>)
                     else (Some RemoteError, w2))))
      \<and> (ser_is_open w \<and> (ser_in_waiting w = [] \<or> read_ok e) \<and> write_ok e \<longrightarrow>
           ser_written (snd (process_control_values str_int loads e
             [''pump1'' \<mapsto> PInt 1, ''pump2'' \<mapsto> PInt 0, ''servo'' \<mapsto> PInt 0, ''system'' \<mapsto> PInt 0] w))
           = ser_written w @ [lbrace, CHR 0x22] @ ''pump1'' @ [CHR 0x22] @ '': 1'' @ [rbrace, CHR 0x0A]))
   \<and> ((k, n) \<in> set (snd (snd (delta_loop str_int cv keys prev []))) \<longrightarrow>
        k \<in> set keys \<and> (\<exists>v. cv k = Some v \<and> coerce_control str_int v = Inr n) \<and> prev k \<noteq> Some n)
   \<and> (fst (delta_loop str_int cv keys prev []) = None \<and> k \<in> set keys \<and> cv k = Some v \<and>
       coerce_control str_int v = Inr n \<and> prev k \<noteq> Some n \<longrightarrow>
        (k, n) \<in> set (snd (snd (delta_loop str_int cv keys prev []))))"
proof (intro conjI impI)
  assume a: "previous_control w ''pump1'' = Some 0 \<and> previous_control w ''pump2'' = Some 0 \<and>
    previous_control w ''servo'' = Some 0 \<and> previous_control w ''system'' = Some 0"
  let ?doc = "[''pump1'' \<mapsto> PInt 1, ''pump2'' \<mapsto> PInt 0, ''servo'' \<mapsto> PInt 0, ''system'' \<mapsto> PInt 0]"
  from a show d: "delta_loop str_int ?doc actuator_keys (previous_control w) []
        = (None, (previous_control w)(''pump1'' := Some 1), [(''pump1'', 1)])"
    by (intro delta_pump1_on) simp_all
  show "process_control_values str_int loads e ?doc w
        = (case send_command_to_arduino loads e [(''pump1'', PInt 1)]
                  (w\<lparr>previous_control := (previous_control w)(''pump1'' := Some 1)\<rparr>) of
             (result, w2) \<Rightarrow>
               (case status_after_command (current_status w2) [(''pump1'', 1)] of
                  Some ex \<Rightarrow> (Some ex, w2)
                | None \<Rightarrow>
                    (if ack_ok e
                     then (None, w2\<lparr>control_doc :=
                             control_doc w2 ++ ack_updates (ack_stamp e) [(''pump1'', 1)]\<rparr>)
                     else (Some RemoteError, w2))))"
    unfolding process_control_values_def d by (simp add: Let_def)
  assume p: "ser_is_open w \<and> (ser_in_waiting w = [] \<or> read_ok e) \<and> write_ok e"
  have "ser_written (snd (process_control_values str_int loads e ?doc w)) =
     ser_written (snd (send_command_to_arduino loads e [(''pump1'', PInt 1)]
       (w\<lparr>previous_control := (previous_control w)(''pump1'' := Some 1)\<rparr>)))"
    using process_written [OF d, of loads e] by simp
  also have "\<dots> = ser_written w @ json_dumps (format_command [(''pump1'', PInt 1)]) @ [CHR 0x0A]"
    using p by (simp add: send_written actuator_keys_def)
  finally show "ser_written (snd (process_control_values str_int loads e ?doc w))
           = ser_written w @ [lbrace, CHR 0x22] @ ''pump1'' @ [CHR 0x22] @ '': 1'' @ [rbrace, CHR 0x0A]"
    unfolding dumps_pump1 by simp
next
  assume a: "(k, n) \<in> set (snd (snd (delta_loop str_int cv keys prev [])))"
  from delta_loop_only [OF a]
  show "k \<in> set keys" and "\<exists>v. cv k = Some v \<and> coerce_control str_int v = Inr n"
    and "prev k \<noteq> Some n"
    by simp_all
next
  assume "fst (delta_loop str_int cv keys prev []) = None \<and> k \<in> set keys \<and> cv k = Some v \<and>
       coerce_control str_int v = Inr n \<and> prev k \<noteq> Some n"
  then have "fst (delta_loop str_int cv keys prev []) = None" "k \<in> set keys" "cv k = Some v"
    "coerce_control str_int v = Inr n" "prev k \<noteq> Some n"
    by simp_all
  then show "(k, n) \<in> set (snd (snd (delta_loop str_int cv keys prev [])))"
    by (rule delta_loop_complete)
qed

theorem delta_only_forwarding_witness:
  "ser_written (snd (process_control_values (\<lambda>s. None) (\<lambda>s. None) quiet_env
      [''pump1'' \<mapsto> PInt 1, ''pump2'' \<mapsto> PInt 0, ''servo'' \<mapsto> PInt 0, ''system'' \<mapsto> PInt 0]
      (initial_world\<lparr>previous_control := (\<lambda>k. Some 0)\<rparr>)))
     = [lbrace, CHR 0x22] @ ''pump1'' @ [CHR 0x22] @ '': 1'' @ [rbrace, CHR 0x0A]
   \<and> snd (snd (delta_loop (\<lambda>s. None)
        [''pump1'' \<mapsto> PInt 1, ''pump2'' \<mapsto> PInt 0, ''servo'' \<mapsto> PInt 0, ''system'' \<mapsto> PInt 0]
        actuator_keys (\<lambda>k. Some 0) [])) = [(''pump1'', 1)]"
proof -
  let ?w = "initial_world\<lparr>previous_control := (\<lambda>k. Some 0)\<rparr>"
  have h: "previous_control ?w ''pump1'' = Some 0 \<and> previous_control ?w ''pump2'' = Some 0 \<and>
    previous_control ?w ''servo'' = Some 0 \<and> previous_control ?w ''system'' = Some 0"
    by simp
  have p: "ser_is_open ?w \<and> (ser_in_waiting ?w = [] \<or> read_ok quiet_env) \<and> write_ok quiet_env"
    by (simp add: initial_world_def quiet_env_def)
  note t = delta_only_forwarding [of ?w "\<lambda>s. None" "\<lambda>s. None" quiet_env "''pump1''" 1
      "[''pump1'' \<mapsto> PInt 1, ''pump2'' \<mapsto> PInt 0, ''servo'' \<mapsto> PInt 0, ''system'' \<mapsto> PInt 0]"
      actuator_keys "\<lambda>k. Some 0" "PInt 1", THEN conjunct1, THEN mp, OF h]
  note d = t [THEN conjunct1]
  note wr = t [THEN conjunct2, THEN conjunct2, THEN mp, OF p]
  have "ser_written ?w = []" by (simp add: initial_world_def)
  with wr d show ?thesis by simp
qed


text \<open>
  C3. On the first cycle the cache holds \<open>None\<close> for every key. With the document
  \<open>{pump1: 0}\<close> the command is \<open>{pump1: 0}\<close>, it is the argument of the send (on a
  usable port the line \<open>{"pump1": 0}\<close> is written), and the cache then holds 0 for
  \<open>pump1\<close>. A second cycle on a document with the same actuator values sends nothing
  and changes nothing. In general a key whose cache entry is \<open>None\<close> is forwarded
  whatever its coerced value is.
\<close>

theorem unset_triggers_send:
  "(previous_control w = (\<lambda>k. None) \<longrightarrow>
      delta_loop str_int [''pump1'' \<mapsto> PInt 0] actuator_keys (previous_control w) []
        = (None, (\<lambda>k. None)(''pump1'' := Some 0), [(''pump1'', 0)])
      \<and> previous_control (snd (process_control_values str_int loads e [''pump1'' \<mapsto> PInt 0] w))
          = (\<lambda>k. None)(''pump1'' := Some 0)
      \<and> ser_written (snd (process_control_values str_int loads e [''pump1'' \<mapsto> PInt 0] w))
          = ser_written (snd (send_command_to_arduino loads e [(''pump1'', PInt 0)]
              (w\<lparr>previous_control := (\<lambda>k. None)(''pump1'' := Some 0)\<rparr>)))
      \<and> (ser_is_open w \<and> (ser_in_waiting w = [] \<or> read_ok e) \<and> write_ok e \<longrightarrow>
           ser_written (snd (process_control_values str_int loads e [''pump1'' \<mapsto> PInt 0] w))
           = ser_written w @ [lbrace, CHR 0x22] @ ''pump1'' @ [CHR 0x22] @ '': 0'' @ [rbrace, CHR 0x0A])
      \<and> (cv ''pump1'' = Some (PInt 0) \<and> cv ''pump2'' = None \<and> cv ''servo'' = None \<and>
          cv ''system'' = None \<longrightarrow>
           process_control_values str_int loads e2 cv
             (snd (process_control_values str_int loads e [''pump1'' \<mapsto> PInt 0] w))
           = (None, snd (process_control_values str_int loads e [''pump1'' \<mapsto> PInt 0] w))))
   \<and> (prev k = None \<and> k \<in> set keys \<and> cv2 k = Some v \<and> coerce_control str_int v = Inr n \<and>
       fst (delta_loop str_int cv2 keys prev []) = None \<longrightarrow>
        (k, n) \<in> set (snd (snd (delta_loop str_int cv2 keys prev []))))"
proof (intro conjI impI)
  assume a: "previous_control w = (\<lambda>k. None)"
  let ?doc = "[''pump1'' \<mapsto> PInt 0]"
  let ?w1 = "snd (process_control_values str_int loads e ?doc w)"
  show d: "delta_loop str_int ?doc actuator_keys (previous_control w) []
        = (None, (\<lambda>k. None)(''pump1'' := Some 0), [(''pump1'', 0)])"
    unfolding a by (rule delta_first_cycle)
  show pc: "previous_control ?w1 = (\<lambda>k. None)(''pump1'' := Some 0)"
    by (simp add: process_previous_control d)
  show wr: "ser_written ?w1
          = ser_written (snd (send_command_to_arduino loads e [(''pump1'', PInt 0)]
              (w\<lparr>previous_control := (\<lambda>k. None)(''pump1'' := Some 0)\<rparr>)))"
    using process_written [OF d, of loads e] by simp
  {
    assume p: "ser_is_open w \<and> (ser_in_waiting w = [] \<or> read_ok e) \<and> write_ok e"
    have "ser_written ?w1 =
       ser_written w @ json_dumps (format_command [(''pump1'', PInt 0)]) @ [CHR 0x0A]"
      unfolding wr using p by (simp add: send_written actuator_keys_def)
    then show "ser_written ?w1
           = ser_written w @ [lbrace, CHR 0x22] @ ''pump1'' @ [CHR 0x22] @ '': 0'' @ [rbrace, CHR 0x0A]"
      unfolding dumps_pump1 by simp
  }
  {
    assume c: "cv ''pump1'' = Some (PInt 0) \<and> cv ''pump2'' = None \<and> cv ''servo'' = None \<and>
          cv ''system'' = None"
    then have "delta_loop str_int cv actuator_keys ((\<lambda>k. None)(''pump1'' := Some 0)) [] =
       (None, (\<lambda>k. None)(''pump1'' := Some 0), [])"
      by (intro delta_second_cycle) simp_all
    then have "delta_loop str_int cv actuator_keys (previous_control ?w1) [] =
       (None, previous_control ?w1, [])"
      unfolding pc .
    then have "process_control_values str_int loads e2 cv ?w1 =
       (None, ?w1\<lparr>previous_control := previous_control ?w1\<rparr>)"
      by (rule process_unchanged)
    then show "process_control_values str_int loads e2 cv ?w1 = (None, ?w1)"
      by simp
  }
next
  assume "prev k = None \<and> k \<in> set keys \<and> cv2 k = Some v \<and> coerce_control str_int v = Inr n \<and>
       fst (delta_loop str_int cv2 keys prev []) = None"
  then have "fst (delta_loop str_int cv2 keys prev []) = None" "k \<in> set keys" "cv2 k = Some v"
    "coerce_control str_int v = Inr n" "prev k \<noteq> Some n"
    by simp_all
  then show "(k, n) \<in> set (snd (snd (delta_loop str_int cv2 keys prev [])))"
    by (rule delta_loop_complete)
qed

theorem unset_triggers_send_witness:
  "ser_written (snd (process_control_values (\<lambda>s. None) (\<lambda>s. None) quiet_env
      [''pump1'' \<mapsto> PInt 0] initial_world))
     = [lbrace, CHR 0x22] @ ''pump1'' @ [CHR 0x22] @ '': 0'' @ [rbrace, CHR 0x0A]
   \<and> process_control_values (\<lambda>s. None) (\<lambda>s. None) quiet_env
        [''pump1'' \<mapsto> PInt 0, ''last_updated'' \<mapsto> PStr ''2025-01-01 00:00:00'']
        (snd (process_control_values (\<lambda>s. None) (\<lambda>s. None) quiet_env
           [''pump1'' \<mapsto> PInt 0] initial_world))
      = (None, snd (process_control_values (\<lambda>s. None) (\<lambda>s. None) quiet_env
           [''pump1'' \<mapsto> PInt 0] initial_world))"
proof -
  have h: "previous_control initial_world = (\<lambda>k. None)"
    by (simp add: initial_world_def)
  have p: "ser_is_open initial_world \<and> (ser_in_waiting initial_world = [] \<or> read_ok quiet_env)
      \<and> write_ok quiet_env"
    by (simp add: initial_world_def quiet_env_def)
  let ?cv = "[''pump1'' \<mapsto> PInt 0, ''last_updated'' \<mapsto> PStr ''2025-01-01 00:00:00'']"
  have c: "?cv ''pump1'' = Some (PInt 0) \<and> ?cv ''pump2'' = None \<and> ?cv ''servo'' = None \<and>
          ?cv ''system'' = None"
    by simp
  note t = unset_triggers_send [of initial_world "\<lambda>s. None" "\<lambda>s. None" quiet_env ?cv quiet_env
      "(\<lambda>k. None)" "''pump1''" actuator_keys "[''pump1'' \<mapsto> PInt 0]" "PInt 0" 0,
      THEN conjunct1, THEN mp, OF h]
  note wr = t [THEN conjunct2, THEN conjunct2, THEN conjunct2, THEN conjunct1, THEN mp, OF p]
  note again = t [THEN conjunct2, THEN conjunct2, THEN conjunct2, THEN conjunct2, THEN mp, OF c]
  have "ser_written initial_world = []" by (simp add: initial_world_def)
  with wr again show ?thesis by simp
qed

text \<open>
  C1, as the code has it. When the loop over the keys yields a command that is not empty,
  the command is sent and the write-back of \<open>last_updated\<close> with the commanded values
  follows whatever the send returned; it is missing only when the status line printed
  after the send raises, or the remote store does. In particular it happens on a closed
  port, where the send returns \<open>False\<close>. With an empty command the document is left as
  it is.
\<close>

theorem write_back_ignores_send_result:
  "(delta_loop str_int cv actuator_keys (previous_control w) [] = (None, prev, command) \<and>
    command \<noteq> [] \<and>
    send_command_to_arduino loads e (map (\<lambda>(k, n). (k, PInt n)) command)
      (w\<lparr>previous_control := prev\<rparr>) = (result, w2) \<longrightarrow>
      (status_after_command (current_status w2) command = None \<and> ack_ok e \<longrightarrow>
         process_control_values str_int loads e cv w =
           (None, w2\<lparr>control_doc := control_doc w ++ ack_updates (ack_stamp e) command\<rparr>))
      \<and> (status_after_command (current_status w2) command = Some ex \<longrightarrow>
           process_control_values str_int loads e cv w = (Some ex, w2) \<and>
           control_doc w2 = control_doc w))
   \<and> (delta_loop str_int cv actuator_keys (previous_control w) [] = (None, prev, command) \<and>
      command \<noteq> [] \<and> \<not> ser_is_open w \<and>
      status_after_command (current_status w) command = None \<and> ack_ok e \<longrightarrow>
        fst (send_command_to_arduino loads e (map (\<lambda>(k, n). (k, PInt n)) command)
               (w\<lparr>previous_control := prev\<rparr>)) = False
        \<and> control_doc (snd (process_control_values str_int loads e cv w)) =
            control_doc w ++ ack_updates (ack_stamp e) command)
   \<and> (delta_loop str_int cv actuator_keys (previous_control w) [] = (None, prev, []) \<longrightarrow>
        control_doc (snd (process_control_values str_int loads e cv w)) = control_doc w)"
proof (intro conjI impI)
  assume a: "delta_loop str_int cv actuator_keys (previous_control w) [] = (None, prev, command) \<and>
    command \<noteq> [] \<and>
    send_command_to_arduino loads e (map (\<lambda>(k, n). (k, PInt n)) command)
      (w\<lparr>previous_control := prev\<rparr>) = (result, w2)"
  then have d: "delta_loop str_int cv actuator_keys (previous_control w) [] = (None, prev, command)"
    and ne: "command \<noteq> []"
    and s: "send_command_to_arduino loads e (map (\<lambda>(k, n). (k, PInt n)) command)
      (w\<lparr>previous_control := prev\<rparr>) = (result, w2)"
    by simp_all
  have cd: "control_doc w2 = control_doc w"
    using send_control_doc [of loads e "map (\<lambda>(k, n). (k, PInt n)) command"
        "w\<lparr>previous_control := prev\<rparr>"] s
    by simp
  {
    assume "status_after_command (current_status w2) command = None \<and> ack_ok e"
    then show "process_control_values str_int loads e cv w =
           (None, w2\<lparr>control_doc := control_doc w ++ ack_updates (ack_stamp e) command\<rparr>)"
      by (simp add: process_changed [OF d ne s] cd)
  }
  {
    assume "status_after_command (current_status w2) command = Some ex"
    then show "process_control_values str_int loads e cv w = (Some ex, w2)"
      by (simp add: process_changed [OF d ne s])
    show "control_doc w2 = control_doc w" by (rule cd)
  }
next
  assume a: "delta_loop str_int cv actuator_keys (previous_control w) [] = (None, prev, command) \<and>
      command \<noteq> [] \<and> \<not> ser_is_open w \<and>
      status_after_command (current_status w) command = None \<and> ack_ok e"
  then have d: "delta_loop str_int cv actuator_keys (previous_control w) [] = (None, prev, command)"
    and ne: "command \<noteq> []" and cl: "\<not> ser_is_open (w\<lparr>previous_control := prev\<rparr>)"
    and ok: "status_after_command (current_status w) command = None" "ack_ok e"
    by simp_all
  have s: "send_command_to_arduino loads e (map (\<lambda>(k, n). (k, PInt n)) command)
      (w\<lparr>previous_control := prev\<rparr>) = (False, w\<lparr>previous_control := prev\<rparr>)"
    using cl by (rule send_closed)
  show "fst (send_command_to_arduino loads e (map (\<lambda>(k, n). (k, PInt n)) command)
               (w\<lparr>previous_control := prev\<rparr>)) = False"
    by (simp add: s)
  show "control_doc (snd (process_control_values str_int loads e cv w)) =
            control_doc w ++ ack_updates (ack_stamp e) command"
    using ok by (simp add: process_changed [OF d ne s])
next
  assume "delta_loop str_int cv actuator_keys (previous_control w) [] = (None, prev, [])"
  then show "control_doc (snd (process_control_values str_int loads e cv w)) = control_doc w"
    by (simp add: process_unchanged)
qed

text \<open>
  A cycle on a closed port: the send returns \<open>False\<close> and the remote document, empty
  before, receives \<open>pump1\<close> and \<open>last_updated\<close>.
\<close>

lemma closed_port_cycle:
  "process_control_values (\<lambda>s. None) (\<lambda>s. None) quiet_env [''pump1'' \<mapsto> PInt 1]
     (initial_world\<lparr>ser_is_open := False\<rparr>)
   = (None, initial_world\<lparr>ser_is_open := False,
        previous_control := (\<lambda>k. None)(''pump1'' := Some 1),
        control_doc := [''last_updated'' \<mapsto> PStr ''2025-01-01 00:00:00'', ''pump1'' \<mapsto> PInt 1]\<rparr>)"
  by (simp add: process_control_values_def actuator_keys_def coerce_control_def
      send_command_to_arduino_def initial_world_def initial_status_def read_slot_def
      quiet_env_def ack_updates_def)

theorem write_back_ignores_send_result_witness:
  "control_doc (snd (process_control_values (\<lambda>s. None) (\<lambda>s. None) quiet_env [''pump1'' \<mapsto> PInt 1]
     (initial_world\<lparr>ser_is_open := False\<rparr>))) ''pump1'' = Some (PInt 1)"
proof -
  let ?w = "initial_world\<lparr>ser_is_open := False\<rparr>"
  have h: "delta_loop (\<lambda>s. None) [''pump1'' \<mapsto> PInt 1] actuator_keys (previous_control ?w) []
      = (None, (\<lambda>k. None)(''pump1'' := Some 1), [(''pump1'', 1)]) \<and>
      [(''pump1'', 1::int)] \<noteq> [] \<and> \<not> ser_is_open ?w \<and>
      status_after_command (current_status ?w) [(''pump1'', 1)] = None \<and> ack_ok quiet_env"
    by (simp add: actuator_keys_def coerce_control_def initial_world_def initial_status_def
        read_slot_def quiet_env_def)
  note t = write_back_ignores_send_result [of "\<lambda>s. None" "[''pump1'' \<mapsto> PInt 1]" ?w
      "(\<lambda>k. None)(''pump1'' := Some 1)" "[(''pump1'', 1)]" "\<lambda>s. None" quiet_env False ?w
      TypeError, THEN conjunct2, THEN conjunct1, THEN mp, OF h]
  then show ?thesis
    by (simp add: ack_updates_def initial_world_def)
qed

text \<open>
  The claim as the specification states it fails: on a closed port the send reports
  failure, and the same cycle updates the remote document.
\<close>

theorem write_back_counterexample:
  "fst (send_command_to_arduino (\<lambda>s. None) quiet_env [(''pump1'', PInt 1)]
         (initial_world\<lparr>ser_is_open := False,
            previous_control := (\<lambda>k. None)(''pump1'' := Some 1)\<rparr>)) = False
   \<and> control_doc (initial_world\<lparr>ser_is_open := False\<rparr>) = Map.empty
   \<and> control_doc (snd (process_control_values (\<lambda>s. None) (\<lambda>s. None) quiet_env
        [''pump1'' \<mapsto> PInt 1] (initial_world\<lparr>ser_is_open := False\<rparr>)))
      = [''last_updated'' \<mapsto> PStr ''2025-01-01 00:00:00'', ''pump1'' \<mapsto> PInt 1]"
  by (simp add: closed_port_cycle send_command_to_arduino_def) (simp add: initial_world_def)


section \<open>Properties of the frame decoder\<close>

lemma index_of_None: "(index_of c s = None) = (c \<notin> set s)"
  by (induction s) auto

lemma index_of_absent: "c \<notin> set s \<Longrightarrow> index_of c s = None"
  by (simp add: index_of_None)

lemma slice_to_zero: "slice s a 0 = []"
  by (simp add: slice_def slice_bound_def)

lemma slice_from_zero: "slice_from s 0 = s"
  by (simp add: slice_from_def slice_bound_def)

text \<open>
  A buffer that holds both braces with every \<open>}\<close> before the first \<open>{\<close>: the search for
  \<open>}\<close> from \<open>start_idx\<close> fails, \<open>end_idx\<close> is 0, the candidate frame is empty and the
  buffer is not shortened. The pass changes nothing and asks for another pass.
\<close>

lemma end_idx_zero:
  "rbrace \<notin> set (drop (nat (start_idx s)) s) \<Longrightarrow> end_idx s = 0"
  by (simp add: end_idx_def py_find_def index_of_absent)

lemma decode_step_stuck: "end_idx (buffer w) = 0 \<Longrightarrow> decode_step loads w = (True, w)"
  by (simp add: decode_step_def slice_to_zero slice_from_zero)

lemma decode_loop_stuck:
  assumes "lbrace \<in> set (buffer w)" and "rbrace \<in> set (buffer w)"
    and "end_idx (buffer w) = 0"
  shows "decode_loop loads w = None"
proof (rule ccontr)
  assume "decode_loop loads w \<noteq> None"
  then obtain y where y: "decode_loop loads w = Some y" by auto
  have "\<not> (lbrace \<in> set (buffer w) \<and> rbrace \<in> set (buffer w) \<and> end_idx (buffer w) = 0)"
  proof (rule decode_loop.raw_induct
      [where P = "\<lambda>l v z. \<not> (lbrace \<in> set (buffer v) \<and> rbrace \<in> set (buffer v)
                              \<and> end_idx (buffer v) = 0)", OF _ y])
    fix f :: "(string \<Rightarrow> frame option) \<Rightarrow> world \<Rightarrow> world option" and l v and z :: world
    assume ih: "\<And>a b c. f a b = Some c \<Longrightarrow>
      \<not> (lbrace \<in> set (buffer b) \<and> rbrace \<in> set (buffer b) \<and> end_idx (buffer b) = 0)"
    assume eq: "(if lbrace \<in> set (buffer v) \<and> rbrace \<in> set (buffer v)
      then let r = decode_step l v in if fst r then f l (snd r) else Some (snd r)
      else Some v) = Some z"
    show "\<not> (lbrace \<in> set (buffer v) \<and> rbrace \<in> set (buffer v) \<and> end_idx (buffer v) = 0)"
    proof
      assume s: "lbrace \<in> set (buffer v) \<and> rbrace \<in> set (buffer v) \<and> end_idx (buffer v) = 0"
      then have "decode_step l v = (True, v)" by (simp add: decode_step_stuck)
      with s eq have "f l v = Some z" by simp
      from ih [OF this] s show False by simp
    qed
  qed
  with assms show False by simp
qed

text \<open>
  So the loop does not end on such a buffer, for instance on the tail of one frame
  followed by the head of the next.
\<close>

lemma decode_loop_hangs:
  assumes "lbrace \<in> set (buffer w)" and "rbrace \<in> set (buffer w)"
    and "rbrace \<notin> set (drop (nat (start_idx (buffer w))) (buffer w))"
  shows "decode_loop loads w = None"
  using assms(1,2) end_idx_zero [OF assms(3)] by (rule decode_loop_stuck)

lemma end_idx_after_rbrace: "end_idx (rbrace # replicate (Suc n) lbrace) = 0"
  by (simp add: end_idx_def start_idx_def py_find_def index_of_absent)

lemma read_hangs:
  assumes "ser_is_open w" and "read_ok e" and "buffer w = [rbrace]"
    and "ser_in_waiting w = replicate (Suc n) lbrace"
  shows "read_and_upload_data loads e w = None"
proof -
  let ?w1 = "w\<lparr>buffer := buffer w @ ser_in_waiting w, ser_in_waiting := []\<rparr>"
  have b: "buffer ?w1 = rbrace # replicate (Suc n) lbrace"
    using assms by simp
  have "decode_loop loads ?w1 = None"
    by (rule decode_loop_stuck) (simp_all only: b end_idx_after_rbrace, simp_all)
  moreover have "rbrace \<in> set (buffer ?w1)" "ser_in_waiting w \<noteq> []"
    using assms by simp_all
  ultimately show ?thesis
    using assms(1,2) by (simp add: read_and_upload_data_def Let_def)
qed

text \<open>
  When the buffer before the chunk holds no \<open>}\<close>, the first branch cuts the long buffer
  back to its last \<open>{\<close>, which is the last character of the chunk.
\<close>

lemma rfind_last: "py_rfind (s @ [c]) c = int (length s)"
  by (simp add: py_rfind_def)

lemma read_truncates:
  assumes "ser_is_open w" and "read_ok e" and "rbrace \<notin> set (buffer w)"
    and "ser_in_waiting w = replicate (Suc n) lbrace" and "100 \<le> n"
  shows "read_and_upload_data loads e w = Some (w\<lparr>buffer := [lbrace], ser_in_waiting := []\<rparr>)"
proof -
  let ?b = "buffer w @ replicate (Suc n) lbrace"
  have eq: "?b = (buffer w @ replicate n lbrace) @ [lbrace]"
    by (simp add: replicate_append_same)
  have r: "py_rfind ?b lbrace = int (length (buffer w) + n)"
    unfolding eq by (simp only: rfind_last) simp
  have "slice_bound ?b (int (length (buffer w) + n)) = length (buffer w) + n"
    unfolding slice_bound_def by simp
  moreover have "drop (length (buffer w) + n) ?b = [lbrace]"
    unfolding eq by simp
  ultimately have s: "slice_from ?b (py_rfind ?b lbrace) = [lbrace]"
    unfolding r slice_from_def by (simp only:)
  have l: "100 < length ?b" using assms(5) by simp
  have m: "lbrace \<in> set ?b \<and> rbrace \<notin> set ?b" using assms(3) by simp
  show ?thesis
    using assms(1,2,4) l m s by (simp add: read_and_upload_data_def Let_def)
qed

text \<open>
  C6 at the failing input. The buffer holds a single \<open>}\<close> (what a previous call leaves
  when the device has sent just that character) and the device delivers 10000 times \<open>{\<close>:
  the call does not return, and the buffer stays at 10001 characters inside the loop.
\<close>

theorem decoder_hangs_on_open_braces:
  "read_and_upload_data loads (e\<lparr>read_ok := True\<rparr>)
     (w\<lparr>ser_is_open := True, buffer := [rbrace],
        ser_in_waiting := replicate 10000 lbrace\<rparr>) = None"
proof -
  have "replicate 10000 lbrace = replicate (Suc 9999) lbrace" by simp
  then show ?thesis
    by (intro read_hangs [where n = 9999]) simp_all
qed


section \<open>Properties of the upload and the mirror\<close>

lemma pump_slot_value: "st ''pumps'' = Some p \<Longrightarrow> pump_slot st i = getitem p i"
  by (simp add: pump_slot_def status_item_def)

lemma string_keys_no_int:
  "\<forall>k \<in> fst ` set d. \<exists>s. k = KStr s \<Longrightarrow> map_of d (KInt i) = None"
  by (induction d) auto

text \<open>A value without two slots: subscripting it with 0 or with 1 raises.\<close>

lemma no_two_slots:
  assumes "p = PNone \<or> p = PBool b \<or> p = PInt i \<or> p = PFloat f
      \<or> (p = PList xs \<and> length xs < 2) \<or> (p = PStr s \<and> length s < 2)
      \<or> (p = PDict d \<and> (\<forall>k \<in> fst ` set d. \<exists>s. k = KStr s))"
  shows "(\<exists>ex. getitem p 0 = Inl ex) \<or> (\<exists>ex. getitem p 1 = Inl ex)"
  using assms string_keys_no_int [of d 0] by auto

lemma control_updates_raises:
  assumes "st ''pumps'' = Some p"
    and "(\<exists>ex. getitem p 0 = Inl ex) \<or> (\<exists>ex. getitem p 1 = Inl ex)"
  shows "\<exists>ex. control_updates st stamp = Inl ex"
proof (cases "getitem p 0")
  case (Inl ex)
  then show ?thesis by (simp add: control_updates_def pump_slot_value [where st = st and p = p, OF assms(1)])
next
  case (Inr a)
  with assms(2) obtain ex where "getitem p 1 = Inl ex" by auto
  with Inr show ?thesis by (simp add: control_updates_def pump_slot_value [where st = st and p = p, OF assms(1)])
qed

lemma show_states_raises:
  assumes "st ''pumps'' = Some p"
    and "(\<exists>ex. getitem p 0 = Inl ex) \<or> (\<exists>ex. getitem p 1 = Inl ex)"
  shows "show_states st \<noteq> None"
proof (cases "getitem p 0")
  case (Inl ex)
  then show ?thesis
    by (simp add: show_states_def pump_slot_value [where st = st and p = p, OF assms(1)])
next
  case (Inr a)
  with assms(2) obtain ex where "getitem p 1 = Inl ex" by auto
  with Inr show ?thesis
    by (simp add: show_states_def pump_slot_value [where st = st and p = p, OF assms(1)])
qed

lemma upload_raises:
  assumes "show_states (current_status w) \<noteq> None"
    and "1 \<le> current_time e - last_sensor_upload v" and "upload_ok e"
  shows "fst (upload_and_sync e v w) \<noteq> None \<and> fst (snd (upload_and_sync e v w)) = v
    \<and> control_doc (snd (snd (upload_and_sync e v w))) = control_doc w"
  using assms by (auto simp: upload_and_sync_def Let_def)

text \<open>
  C10, as the code has it. \<open>update_status\<close> stores a \<open>pumps\<close> value as it comes. While
  the status holds a \<open>pumps\<close> value decoded from JSON that is neither a list nor a text of
  at least two elements, the line that prints the states raises, and so would the mirror
  of the actuator state; the upload block is left before the mirror, with its timers
  and the control document unchanged. A text of two characters or more is subscripted
  without an error: the states line prints, and the mirror stores, its first two
  characters.
\<close>

theorem malformed_pumps_raise:
  "(data ''pumps'' = Some p \<and> data ''pump1'' = None \<and> data ''pump2'' = None \<longrightarrow>
      fst (update_status data st0) = None \<and> snd (update_status data st0) ''pumps'' = Some p)
   \<and> (st ''pumps'' = Some p \<and>
       (p = PNone \<or> p = PBool b \<or> p = PInt i \<or> p = PFloat f
        \<or> (p = PList xs \<and> length xs < 2) \<or> (p = PStr s \<and> length s < 2)
        \<or> (p = PDict d \<and> (\<forall>k \<in> fst ` set d. \<exists>s. k = KStr s))) \<longrightarrow>
         show_states st \<noteq> None
         \<and> (\<exists>ex. control_updates st stamp = Inl ex)
         \<and> (current_status w = st \<and> 1 \<le> current_time e - last_sensor_upload v \<and> upload_ok e \<longrightarrow>
              fst (upload_and_sync e v w) \<noteq> None
              \<and> fst (snd (upload_and_sync e v w)) = v
              \<and> control_doc (snd (snd (upload_and_sync e v w))) = control_doc w))
   \<and> (st ''pumps'' = Some (PStr (c1 # c2 # cs)) \<and> st ''servo'' = Some sv \<and> st ''system'' = Some sy \<longrightarrow>
         show_states st = None
         \<and> control_updates st stamp =
             Inr [''pump1'' \<mapsto> PStr [c1], ''pump2'' \<mapsto> PStr [c2], ''servo'' \<mapsto> sv,
                  ''system'' \<mapsto> sy, ''last_updated'' \<mapsto> PStr stamp])"
proof (intro conjI impI)
  assume a: "data ''pumps'' = Some p \<and> data ''pump1'' = None \<and> data ''pump2'' = None"
  then show "fst (update_status data st0) = None"
    by (simp add: update_status_def set_pump_absent)
  from a show "snd (update_status data st0) ''pumps'' = Some p"
    by (simp add: update_status_snd Let_def copy_field_present copy_field_other set_pump_absent)
next
  assume a: "st ''pumps'' = Some p \<and>
       (p = PNone \<or> p = PBool b \<or> p = PInt i \<or> p = PFloat f
        \<or> (p = PList xs \<and> length xs < 2) \<or> (p = PStr s \<and> length s < 2)
        \<or> (p = PDict d \<and> (\<forall>k \<in> fst ` set d. \<exists>s. k = KStr s)))"
  then have p: "st ''pumps'' = Some p" by simp
  from a have g: "(\<exists>ex. getitem p 0 = Inl ex) \<or> (\<exists>ex. getitem p 1 = Inl ex)"
    by (intro no_two_slots [of p b i f xs s d]) simp
  show r: "show_states st \<noteq> None"
    by (rule show_states_raises [where st = st and p = p, OF p g])
  show "\<exists>ex. control_updates st stamp = Inl ex"
    by (rule control_updates_raises [where st = st and p = p, OF p g])
  assume u: "current_status w = st \<and> 1 \<le> current_time e - last_sensor_upload v \<and> upload_ok e"
  with r have "fst (upload_and_sync e v w) \<noteq> None \<and> fst (snd (upload_and_sync e v w)) = v
    \<and> control_doc (snd (snd (upload_and_sync e v w))) = control_doc w"
    by (intro upload_raises) simp_all
  then show "fst (upload_and_sync e v w) \<noteq> None" "fst (snd (upload_and_sync e v w)) = v"
    "control_doc (snd (snd (upload_and_sync e v w))) = control_doc w"
    by simp_all
next
  assume a: "st ''pumps'' = Some (PStr (c1 # c2 # cs)) \<and> st ''servo'' = Some sv \<and> st ''system'' = Some sy"
  then show c: "control_updates st stamp =
             Inr [''pump1'' \<mapsto> PStr [c1], ''pump2'' \<mapsto> PStr [c2], ''servo'' \<mapsto> sv,
                  ''system'' \<mapsto> sy, ''last_updated'' \<mapsto> PStr stamp]"
    by (simp add: control_updates_def pump_slot_def status_item_def)
  from a show "show_states st = None"
    by (simp add: show_states_def pump_slot_def status_item_def)
qed

theorem malformed_pumps_raise_witness:
  "snd (update_status [''pumps'' \<mapsto> PInt 5] initial_status) ''pumps'' = Some (PInt 5)
   \<and> show_states (initial_status(''pumps'' \<mapsto> PInt 5)) \<noteq> None
   \<and> fst (upload_and_sync (quiet_env\<lparr>current_time := 7\<rparr>)
         \<lparr>serial_errors = 0, last_reset_time = 0, last_firebase_update = 0,
          last_sensor_upload = 0, last_control_sync = 0\<rparr>
         (initial_world\<lparr>current_status := initial_status(''pumps'' \<mapsto> PInt 5)\<rparr>)) \<noteq> None
   \<and> show_states (initial_status(''pumps'' \<mapsto> PStr ''ab'')) = None"
proof -
  let ?st = "initial_status(''pumps'' \<mapsto> PInt 5)"
  let ?w = "initial_world\<lparr>current_status := ?st\<rparr>"
  let ?e = "quiet_env\<lparr>current_time := 7\<rparr>"
  let ?v = "\<lparr>serial_errors = 0, last_reset_time = 0, last_firebase_update = 0,
          last_sensor_upload = 0, last_control_sync = 0\<rparr>"
  let ?st2 = "initial_status(''pumps'' \<mapsto> PStr ''ab'')"
  note t = malformed_pumps_raise [where data = "[''pumps'' \<mapsto> PInt 5]" and p = "PInt 5"
      and ?st0.0 = initial_status and st = ?st and b = True and i = 5 and f = NaN
      and xs = "[]" and s = "[]" and d = "[]" and w = ?w and e = ?e and v = ?v]
  have h1: "[''pumps'' \<mapsto> PInt 5] ''pumps'' = Some (PInt 5) \<and> [''pumps'' \<mapsto> PInt 5] ''pump1'' = None
      \<and> [''pumps'' \<mapsto> PInt 5] ''pump2'' = None"
    by simp
  have h2: "?st ''pumps'' = Some (PInt 5) \<and>
       (PInt 5 = PNone \<or> PInt 5 = PBool True \<or> PInt 5 = PInt 5 \<or> PInt 5 = PFloat NaN
        \<or> (PInt 5 = PList [] \<and> length ([]::pyval list) < 2) \<or> (PInt 5 = PStr [] \<and> length ([]::string) < 2)
        \<or> (PInt 5 = PDict [] \<and> (\<forall>k \<in> fst ` set ([]::(pykey \<times> pyval) list). \<exists>s. k = KStr s)))"
    by simp
  have h3: "current_status ?w = ?st \<and> 1 \<le> current_time ?e - last_sensor_upload ?v \<and> upload_ok ?e"
    by (simp add: quiet_env_def)
  note a = t [THEN conjunct1, THEN mp, OF h1]
  note b = t [THEN conjunct2, THEN conjunct1, THEN mp, OF h2]
  note c = b [THEN conjunct2, THEN conjunct2, THEN mp, OF h3]
  have h4: "?st2 ''pumps'' = Some (PStr (CHR ''a'' # CHR ''b'' # [])) \<and> ?st2 ''servo'' = Some (PInt 0)
      \<and> ?st2 ''system'' = Some (PInt 0)"
    by (simp add: initial_status_def)
  note d = malformed_pumps_raise [where st = ?st2 and ?c1.0 = "CHR ''a''" and ?c2.0 = "CHR ''b''"
      and cs = "[]" and sv = "PInt 0" and sy = "PInt 0",
      THEN conjunct2, THEN conjunct2, THEN mp, OF h4]
  from a b c d show ?thesis by simp
qed

text \<open>
  The claim as the specification states it fails: the text \<open>"ab"\<close> is not a list of at
  least two elements, and after it is merged neither the states line nor the mirror
  raises; the mirror stores the two characters.
\<close>

theorem malformed_pumps_counterexample:
  "update_status [''pumps'' \<mapsto> PStr ''ab''] initial_status
     = (None, initial_status(''pumps'' \<mapsto> PStr ''ab''))
   \<and> show_states (initial_status(''pumps'' \<mapsto> PStr ''ab'')) = None
   \<and> control_updates (initial_status(''pumps'' \<mapsto> PStr ''ab'')) ''2025-01-01 00:00:00''
       = Inr [''pump1'' \<mapsto> PStr ''a'', ''pump2'' \<mapsto> PStr ''b'', ''servo'' \<mapsto> PInt 0,
              ''system'' \<mapsto> PInt 0, ''last_updated'' \<mapsto> PStr ''2025-01-01 00:00:00'']"
  by (simp add: update_status_def copy_field_def set_pump_def show_states_def
      control_updates_def pump_slot_def status_item_def initial_status_def)


section \<open>Properties of the main loop\<close>

lemma reset_check_idle: "\<not> reset_due e v \<Longrightarrow> reset_check e v w = (v, w)"
  by (simp add: reset_check_def)

lemma reset_check_success:
  "reset_due e v \<Longrightarrow> ser_is_open w \<Longrightarrow> reopen_ok e \<Longrightarrow>
   reset_check e v w =
     (v\<lparr>serial_errors := 0, last_reset_time := current_time e\<rparr>,
      w\<lparr>ser_is_open := True, ser_in_waiting := []\<rparr>)"
  by (simp add: reset_check_def reset_serial_port_def)

lemma upload_last_reset:
  "last_reset_time (fst (snd (upload_and_sync e v w))) = last_reset_time v"
  by (simp add: upload_and_sync_def Let_def split: option.splits sum.splits)

lemma control_check_last_reset:
  "last_reset_time (fst (control_check str_int loads e v w)) = last_reset_time v"
  by (simp add: control_check_def split: prod.splits option.splits)

lemma main_iteration_fired:
  "main_iteration str_int loads e s = Some (fired, s') \<Longrightarrow> fired = reset_due e (fst s)"
  by (auto simp: main_iteration_def Let_def split: prod.splits option.splits)

lemma main_iteration_idle:
  assumes "main_iteration str_int loads e (v, w) = Some (fired, s')" and "\<not> reset_due e v"
  shows "last_reset_time (fst s') = last_reset_time v"
proof -
  have r: "reset_check e v w = (v, w)"
    using assms(2) by (rule reset_check_idle)
  let ?w2 = "w\<lparr>ser_in_waiting := ser_in_waiting w @ arriving e\<rparr>"
  have m: "main_iteration str_int loads e (v, w) =
     (case read_and_upload_data loads e ?w2 of
        None \<Rightarrow> None
      | Some w3 \<Rightarrow>
          (let (ex, v2, w4) = upload_and_sync e v w3;
               v3 = (if ex = None then v2 else v2\<lparr>serial_errors := serial_errors v2 + 1\<rparr>)
           in Some (reset_due e v, control_check str_int loads e v3 w4)))"
    by (simp add: main_iteration_def r split: option.splits)
  from assms(1) obtain w3 where w3: "read_and_upload_data loads e ?w2 = Some w3"
    unfolding m by (cases "read_and_upload_data loads e ?w2") simp_all
  obtain ex v2 w4 where u: "upload_and_sync e v w3 = (ex, v2, w4)"
    by (metis prod_cases3)
  have v2: "last_reset_time v2 = last_reset_time v"
    using upload_last_reset [of e v w3] u by simp
  let ?v3 = "if ex = None then v2 else v2\<lparr>serial_errors := serial_errors v2 + 1\<rparr>"
  have "s' = control_check str_int loads e ?v3 w4"
    using assms(1) unfolding m by (simp add: w3 u Let_def)
  then have "last_reset_time (fst s') = last_reset_time ?v3"
    by (simp add: control_check_last_reset)
  with v2 show ?thesis by simp
qed

lemma main_loop_cooldown:
  "main_loop str_int loads es s = Some (fires, s') \<Longrightarrow>
   \<forall>e \<in> set es. current_time e - last_reset_time (fst s) \<le> 60 \<Longrightarrow>
   (\<forall>f \<in> set fires. \<not> f) \<and> last_reset_time (fst s') = last_reset_time (fst s)"
proof (induction es arbitrary: s fires)
  case Nil
  then show ?case by simp
next
  case (Cons e es)
  from Cons.prems(1) obtain fired s1 fires1 where
    it: "main_iteration str_int loads e s = Some (fired, s1)"
    and rest: "main_loop str_int loads es s1 = Some (fires1, s')"
    and fs: "fires = fired # fires1"
    by (auto split: option.splits prod.splits)
  from Cons.prems(2) have nd: "\<not> reset_due e (fst s)"
    by (simp add: reset_due_def)
  have nf: "\<not> fired" using main_iteration_fired [OF it] nd by simp
  have l: "last_reset_time (fst s1) = last_reset_time (fst s)"
    using it nd main_iteration_idle [of str_int loads e "fst s" "snd s" fired s1] by simp
  from Cons.prems(2) l have "\<forall>e \<in> set es. current_time e - last_reset_time (fst s1) \<le> 60"
    by simp
  from Cons.IH [OF rest this] nf fs l show ?case by auto
qed

text \<open>
  C8. The reset is attempted in an iteration only when \<open>serial_errors\<close> exceeds 100 and
  more than 60 time units (so at least 60) have passed since \<open>last_reset_time\<close>; without
  that the port and the counters are not touched by the check. A successful reset
  records the time of the reset. In a run of any length (150 iterations or more,
  whatever fails in them) whose iterations all lie within 60 time units of
  \<open>last_reset_time\<close>, no reset is attempted and \<open>last_reset_time\<close> stays. The run is a
  returned prefix of the loop: an iteration whose read does not return ends it.
\<close>

theorem reset_cooldown:
  "(main_iteration str_int loads e s = Some (fired, s1) \<and> fired \<longrightarrow>
      100 < serial_errors (fst s) \<and> 60 \<le> current_time e - last_reset_time (fst s))
   \<and> (\<not> (100 < serial_errors v \<and> 60 < current_time e - last_reset_time v) \<longrightarrow>
        reset_check e v w = (v, w))
   \<and> (100 < serial_errors v \<and> 60 < current_time e - last_reset_time v \<and> ser_is_open w \<and>
       reopen_ok e \<longrightarrow>
        last_reset_time (fst (reset_check e v w)) = current_time e
        \<and> serial_errors (fst (reset_check e v w)) = 0)
   \<and> (main_loop str_int loads es s = Some (fires, s2) \<and>
       (\<forall>x \<in> set es. current_time x - last_reset_time (fst s) \<le> 60) \<longrightarrow>
        (\<forall>f \<in> set fires. \<not> f) \<and> last_reset_time (fst s2) = last_reset_time (fst s))"
proof (intro conjI impI)
  assume a: "main_iteration str_int loads e s = Some (fired, s1) \<and> fired"
  then have "reset_due e (fst s)" using main_iteration_fired [of str_int loads e s fired s1] by simp
  then show "100 < serial_errors (fst s)" "60 \<le> current_time e - last_reset_time (fst s)"
    by (simp_all add: reset_due_def)
next
  assume "\<not> (100 < serial_errors v \<and> 60 < current_time e - last_reset_time v)"
  then show "reset_check e v w = (v, w)"
    by (intro reset_check_idle) (simp add: reset_due_def)
next
  assume a: "100 < serial_errors v \<and> 60 < current_time e - last_reset_time v \<and> ser_is_open w \<and>
       reopen_ok e"
  then have "reset_check e v w =
     (v\<lparr>serial_errors := 0, last_reset_time := current_time e\<rparr>,
      w\<lparr>ser_is_open := True, ser_in_waiting := []\<rparr>)"
    by (intro reset_check_success) (simp_all add: reset_due_def)
  then show "last_reset_time (fst (reset_check e v w)) = current_time e"
    "serial_errors (fst (reset_check e v w)) = 0"
    by simp_all
next
  assume a: "main_loop str_int loads es s = Some (fires, s2) \<and>
       (\<forall>x \<in> set es. current_time x - last_reset_time (fst s) \<le> 60)"
  then have "(\<forall>f \<in> set fires. \<not> f) \<and> last_reset_time (fst s2) = last_reset_time (fst s)"
    by (intro main_loop_cooldown [of str_int loads es s fires s2]) simp_all
  then show "\<forall>f \<in> set fires. \<not> f" "last_reset_time (fst s2) = last_reset_time (fst s)"
    by blast+
qed


text \<open>
  An iteration in which the upload fails, 10 time units after a reset at time 100: the
  error is counted and nothing else changes, however many errors have been counted.
\<close>

lemma failing_iteration:
  "main_iteration str_int loads (quiet_env\<lparr>current_time := 110, upload_ok := False, fetch_ok := False\<rparr>)
     (vars_at k 100 100, initial_world)
   = Some (False, (vars_at (Suc k) 100 100, initial_world))"
  by (simp add: main_iteration_def reset_check_def reset_due_def read_and_upload_data_def
      upload_and_sync_def control_check_def quiet_env_def initial_world_def vars_at_def)

lemma failing_run:
  "main_loop str_int loads
     (replicate n (quiet_env\<lparr>current_time := 110, upload_ok := False, fetch_ok := False\<rparr>))
     (vars_at k 100 100, initial_world)
   = Some (replicate n False, (vars_at (k + n) 100 100, initial_world))"
  by (induction n arbitrary: k) (simp_all add: failing_iteration)

lemma resetting_iteration:
  "main_iteration str_int loads (quiet_env\<lparr>current_time := 100\<rparr>)
     (vars_at 101 0 100, initial_world)
   = Some (True, (vars_at 0 100 100, initial_world))"
  by (simp add: main_iteration_def reset_check_def reset_due_def reset_serial_port_def
      read_and_upload_data_def upload_and_sync_def control_check_def quiet_env_def
      initial_world_def vars_at_def)

theorem reset_cooldown_witness:
  "main_iteration (\<lambda>s. None) (\<lambda>s. None) (quiet_env\<lparr>current_time := 100\<rparr>)
     (vars_at 101 0 100, initial_world)
     = Some (True, (vars_at 0 100 100, initial_world))
   \<and> 100 < serial_errors (vars_at 101 0 100)
   \<and> 60 \<le> current_time (quiet_env\<lparr>current_time := 100\<rparr>) - last_reset_time (vars_at 101 0 100)
   \<and> main_loop (\<lambda>s. None) (\<lambda>s. None)
       (replicate 150 (quiet_env\<lparr>current_time := 110, upload_ok := False, fetch_ok := False\<rparr>))
       (vars_at 0 100 100, initial_world)
     = Some (replicate 150 False, (vars_at 150 100 100, initial_world))
   \<and> last_reset_time (vars_at 150 100 100) = last_reset_time (vars_at 0 100 100)
   \<and> reset_check (quiet_env\<lparr>current_time := 110\<rparr>) (vars_at 150 100 100) initial_world
       = (vars_at 150 100 100, initial_world)
   \<and> last_reset_time (fst (reset_check (quiet_env\<lparr>current_time := 161\<rparr>) (vars_at 150 100 100)
        initial_world)) = 161"
proof -
  let ?e1 = "quiet_env\<lparr>current_time := 100\<rparr>"
  let ?e2 = "quiet_env\<lparr>current_time := 110, upload_ok := False, fetch_ok := False\<rparr>"
  let ?s0 = "(vars_at 101 0 100, initial_world)"
  let ?s1 = "(vars_at 0 100 100, initial_world)"
  let ?s2 = "(vars_at 150 100 100, initial_world)"
  have i: "main_iteration (\<lambda>s. None) (\<lambda>s. None) ?e1 ?s0 = Some (True, ?s1)"
    by (rule resetting_iteration)
  have r: "main_loop (\<lambda>s. None) (\<lambda>s. None) (replicate 150 ?e2) ?s1
      = Some (replicate 150 False, ?s2)"
    using failing_run [of "\<lambda>s. None" "\<lambda>s. None" 150 0] by simp
  have h1: "main_iteration (\<lambda>s. None) (\<lambda>s. None) ?e1 ?s0 = Some (True, ?s1) \<and> True"
    using i by simp
  have h2: "\<not> (100 < serial_errors (vars_at 150 100 100)
      \<and> 60 < current_time (quiet_env\<lparr>current_time := 110\<rparr>) - last_reset_time (vars_at 150 100 100))"
    by (simp add: vars_at_def)
  have h3: "100 < serial_errors (vars_at 150 100 100)
      \<and> 60 < current_time (quiet_env\<lparr>current_time := 161\<rparr>) - last_reset_time (vars_at 150 100 100)
      \<and> ser_is_open initial_world \<and> reopen_ok (quiet_env\<lparr>current_time := 161\<rparr>)"
    by (simp add: vars_at_def initial_world_def quiet_env_def)
  have h4: "main_loop (\<lambda>s. None) (\<lambda>s. None) (replicate 150 ?e2) ?s1
      = Some (replicate 150 False, ?s2)
      \<and> (\<forall>x \<in> set (replicate 150 ?e2). current_time x - last_reset_time (fst ?s1) \<le> 60)"
    using r by (simp add: vars_at_def)
  note a = reset_cooldown [where str_int = "\<lambda>s. None" and loads = "\<lambda>s. None" and e = ?e1
      and s = ?s0 and fired = True and ?s1.0 = ?s1, THEN conjunct1, THEN mp, OF h1]
  note b = reset_cooldown [where e = "quiet_env\<lparr>current_time := 110\<rparr>" and v = "vars_at 150 100 100"
      and w = initial_world, THEN conjunct2, THEN conjunct1, THEN mp, OF h2]
  note c = reset_cooldown [where e = "quiet_env\<lparr>current_time := 161\<rparr>" and v = "vars_at 150 100 100"
      and w = initial_world, THEN conjunct2, THEN conjunct2, THEN conjunct1, THEN mp, OF h3]
  note d = reset_cooldown [where str_int = "\<lambda>s. None" and loads = "\<lambda>s. None"
      and es = "replicate 150 ?e2" and s = ?s1 and fires = "replicate 150 False" and ?s2.0 = ?s2,
      THEN conjunct2, THEN conjunct2, THEN conjunct2, THEN mp, OF h4]
  from i r a b c d show ?thesis by simp
qed


end
